theory Spec2Isabelle
  imports Main
begin

section \<open>mkgo: scaffolding a Go main module from a template\<close>

text \<open>
  The development embeds \<^verbatim>\<open>mkgo.go\<close> (version 0.1.0, called the base variant below) and
  its successor (version 0.2.1, the extended variant, which adds the license and readme
  files). Go strings are byte strings and are modelled as \<^typ>\<open>string\<close>. The functions
  of the Go standard library that the program calls are modelled first, from their
  documented behaviour on Unix, where the path separator is \<^verbatim>\<open>/\<close> and the list
  separator is \<^verbatim>\<open>:\<close>.
\<close>

subsection \<open>Library functions: package strings\<close>

text \<open>\<^verbatim>\<open>strings.Join(elems, sep)\<close>: the elements, with \<open>sep\<close> between neighbours.\<close>

fun strings_Join :: "string list \<Rightarrow> string \<Rightarrow> string" where
  "strings_Join [] sep = []"
| "strings_Join [x] sep = x"
| "strings_Join (x # y # ys) sep = x @ sep @ strings_Join (y # ys) sep"

text \<open>
  \<^verbatim>\<open>strings.Split(s, sep)\<close> for a separator of one byte: the fields between the
  separators, empty fields included; the result is never the empty list. A byte that is
  not the separator goes in front of the first field of the rest.
\<close>

fun strings_Split :: "string \<Rightarrow> char \<Rightarrow> string list" where
  "strings_Split [] sep = [[]]"
| "strings_Split (c # cs) sep =
     (if c = sep then [] # strings_Split cs sep
      else (case strings_Split cs sep of
              [] \<Rightarrow> [[c]]
            | field # fields \<Rightarrow> (c # field) # fields))"

text \<open>
  \<^verbatim>\<open>strings.ReplaceAll(s, old, new)\<close>: the non-overlapping occurrences of \<open>old\<close> in
  \<open>s\<close>, found from left to right, are replaced by \<open>new\<close>. For an empty \<open>old\<close> the
  library inserts \<open>new\<close> before every character and at the end (the program never
  does this: its tokens are not empty).
\<close>

definition HasPrefix :: "string \<Rightarrow> string \<Rightarrow> bool" where
  "HasPrefix s p = (take (length p) s = p)"

function ReplaceAll :: "string \<Rightarrow> string \<Rightarrow> string \<Rightarrow> string" where
  "ReplaceAll s old new =
     (if old = [] then new @ concat (map (\<lambda>c. c # new) s)
      else if s = [] then []
      else if HasPrefix s old then new @ ReplaceAll (drop (length old) s) old new
      else hd s # ReplaceAll (tl s) old new)"
  by pat_completeness auto
termination
  by (relation "measure (\<lambda>(s, old, new). length s)") auto

declare ReplaceAll.simps [simp del]

subsection \<open>Library functions: package path/filepath\<close>

text \<open>
  \<^verbatim>\<open>filepath.Split(path)\<close> splits immediately after the last separator: the
  directory part keeps its final slash, the file part has no slash; without a slash the
  directory part is empty.
\<close>

definition Split :: "string \<Rightarrow> string \<times> string" where
  "Split path =
     (rev (dropWhile (\<lambda>c. c \<noteq> CHR ''/'') (rev path)),
      rev (takeWhile (\<lambda>c. c \<noteq> CHR ''/'') (rev path)))"

text \<open>
  \<^verbatim>\<open>filepath.Clean(path)\<close>, by its documented rules: multiple separators count as
  one, every \<^verbatim>\<open>.\<close> element is dropped, an inner \<^verbatim>\<open>..\<close> element is dropped together
  with the element other than \<^verbatim>\<open>..\<close> before it, a \<^verbatim>\<open>..\<close> element that begins a
  rooted path is dropped, the result ends in a slash only when it is the root, and an
  empty result is \<^verbatim>\<open>.\<close>. The elements kept so far are a stack; \<open>clean_step\<close> consumes
  one element of the path.
\<close>

definition rooted :: "string \<Rightarrow> bool" where
  "rooted path = (path \<noteq> [] \<and> hd path = CHR ''/'')"

definition clean_step :: "bool \<Rightarrow> string list \<Rightarrow> string \<Rightarrow> string list" where
  "clean_step r st e =
     (if e = [] \<or> e = ''.'' then st
      else if e = ''..'' then
        (if st \<noteq> [] \<and> last st \<noteq> ''..'' then butlast st
         else if r then st
         else st @ [e])
      else st @ [e])"

definition Clean :: "string \<Rightarrow> string" where
  "Clean path =
     (let st = foldl (clean_step (rooted path)) [] (strings_Split path CHR ''/'')
      in if rooted path then CHR ''/'' # strings_Join st ''/''
         else if st = [] then ''.''
         else strings_Join st ''/'')"

text \<open>
  \<^verbatim>\<open>filepath.Join(elem...)\<close>: from the first element that is not empty on, the
  elements are joined with slashes and the result is cleaned; with no such element the
  result is the empty string.
\<close>

definition Join :: "string list \<Rightarrow> string" where
  "Join elem =
     (case dropWhile (\<lambda>e. e = []) elem of
        [] \<Rightarrow> []
      | e # es \<Rightarrow> Clean (strings_Join (e # es) ''/''))"

text \<open>
  \<^verbatim>\<open>filepath.SplitList(path)\<close>: the entries of a colon-separated list; the empty
  string has no entry.
\<close>

definition SplitList :: "string \<Rightarrow> string list" where
  "SplitList path = (if path = [] then [] else strings_Split path CHR '':'')"

subsection \<open>The path resolver\<close>

text \<open>
  The first loop of \<^verbatim>\<open>splitPath\<close> takes the last component off the path until the
  directory part is empty. Nothing bounds the number of rounds, so the loop is a partial
  function: \<open>None\<close> means that it never returns.
\<close>

partial_function (option) splitPath_loop :: "string \<Rightarrow> string list \<Rightarrow> string list option" where
  "splitPath_loop path part =
     (if length path > 0 then
        (case Split path of (d, f) \<Rightarrow>
           let part' = (if length f > 0 then part @ [f] else part)
           in if length d > 0 then splitPath_loop (Clean d) part' else Some part')
      else Some part)"

declare splitPath_loop.simps [code]

text \<open>The second loop reverses the slice in place, swapping ends towards the middle.\<close>

function reverse_loop :: "nat \<Rightarrow> nat \<Rightarrow> string list \<Rightarrow> string list" where
  "reverse_loop i n part =
     (if i < n div 2
      then reverse_loop (i + 1) n (part[i := part ! (n - i - 1), n - i - 1 := part ! i])
      else part)"
  by pat_completeness auto
termination
  by (relation "measure (\<lambda>(i, n, part). n div 2 - i)") auto

declare reverse_loop.simps [simp del]

definition splitPath :: "string \<Rightarrow> string list option" where
  "splitPath path =
     (case splitPath_loop path [] of
        None \<Rightarrow> None
      | Some part \<Rightarrow> Some (reverse_loop 0 (length part) part))"

text \<open>
  \<^verbatim>\<open>packagePath\<close>; its first argument is the value of the environment variable
  \<^verbatim>\<open>GOPATH\<close>. Both results start as the empty string.
\<close>

definition packagePath :: "string \<Rightarrow> string \<Rightarrow> (string \<times> string) option" where
  "packagePath GOPATH path =
     (let gopath = SplitList GOPATH in
      case splitPath path of
        None \<Rightarrow> None
      | Some part \<Rightarrow>
          Some (if length gopath > 0 then Join [gopath ! 0, ''src'', Join part] else [],
                if length part > 0 then part ! (length part - 1) else []))"

subsection \<open>Templates\<close>

text \<open>
  A \<^verbatim>\<open>Template\<close> is a slice of lines. \<^verbatim>\<open>insert\<close> overwrites every line of the
  receiver with the result of the nested replacements and returns the receiver; the model
  returns the new lines. The base variant replaces three tokens, the extended variant
  five.
\<close>

type_synonym Template = "string list"

definition Template_insert :: "Template \<Rightarrow> string \<Rightarrow> string \<Rightarrow> string \<Rightarrow> Template" where
  "Template_insert tmpl name date version =
     map (\<lambda>s. ReplaceAll (ReplaceAll (ReplaceAll s
                  ''__NAME__'' name) ''__DATE__'' date) ''__VERSION__'' version) tmpl"

definition Template_insert_ext ::
  "Template \<Rightarrow> string \<Rightarrow> string \<Rightarrow> string \<Rightarrow> string \<Rightarrow> string \<Rightarrow> Template" where
  "Template_insert_ext tmpl path name date version user =
     map (\<lambda>s. ReplaceAll (ReplaceAll (ReplaceAll (ReplaceAll (ReplaceAll s
                  ''__IMPORT__'' path) ''__NAME__'' name) ''__DATE__'' date)
                  ''__VERSION__'' version) ''__USER__'' user) tmpl"

definition Template_String :: "Template \<Rightarrow> string" where
  "Template_String tmpl = strings_Join tmpl [CHR 0x0A]"

text \<open>The compiled-in templates. A tab, a backslash and a newline are written by code.\<close>

definition tab :: string where
  "tab = [CHR 0x09]"

definition backslash :: string where
  "backslash = [CHR 0x5C]"

definition newline :: string where
  "newline = [CHR 0x0A]"

definition template :: Template where
  \<open>template =
   [''package main'',
    [],
    ''import ('',
    tab @ ''"flag"'',
    tab @ ''"fmt"'',
    [],
    tab @ ''"github.com/ardnew/version"'',
    '')'',
    [],
    ''func init() {'',
    tab @ ''version.ChangeLog = []version.Change{{'',
    tab @ tab @ ''Package: "__NAME__",'',
    tab @ tab @ ''Version: "__VERSION__",'',
    tab @ tab @ ''Date:    "__DATE__",'',
    tab @ tab @ ''Description: []string{'',
    tab @ tab @ tab @ ''"initial implementation",'',
    tab @ tab @ ''},'',
    tab @ ''}}'',
    ''}'',
    [],
    ''func main() {'',
    [],
    tab @ ''var ('',
    tab @ tab @ ''argChangeLog bool'',
    tab @ tab @ ''argVersion   bool'',
    tab @ '')'',
    [],
    tab @ ''flag.BoolVar(&argChangeLog, "changelog", false, "display change history")'',
    tab @ ''flag.BoolVar(&argVersion, "version", false, "display version information")'',
    tab @ ''flag.Parse()'',
    [],
    tab @ ''if argChangeLog {'',
    tab @ tab @ ''version.PrintChangeLog()'',
    tab @ ''} else if argVersion {'',
    tab @ tab @ ''fmt.Printf("__NAME__ version %s'' @ backslash @ ''n", version.String())'',
    tab @ ''} else {'',
    tab @ tab @ ''// main'',
    tab @ ''}'',
    ''}'']\<close>

text \<open>The templates of the extended variant.\<close>

definition template_ext :: Template where
  \<open>template_ext =
   [''package main'',
    [],
    ''import ('',
    tab @ ''"flag"'',
    tab @ ''"fmt"'',
    [],
    tab @ ''"github.com/ardnew/version"'',
    '')'',
    [],
    ''func init() {'',
    tab @ ''version.ChangeLog = []version.Change{{'',
    tab @ tab @ ''Package: "__NAME__",'',
    tab @ tab @ ''Version: "__VERSION__",'',
    tab @ tab @ ''Date:    "__DATE__",'',
    tab @ tab @ ''Description: []string{'',
    tab @ tab @ tab @ ''"initial implementation",'',
    tab @ tab @ ''},'',
    tab @ ''}}'',
    ''}'',
    [],
    ''func main() {'',
    [],
    tab @ ''var ('',
    tab @ tab @ ''argVersion bool'',
    tab @ tab @ ''argChanges bool'',
    tab @ '')'',
    [],
    tab @ ''flag.BoolVar(&argVersion, "v", false, "Display version information")'',
    tab @ ''flag.BoolVar(&argChanges, "V", false, "Display change history")'',
    tab @ ''flag.Parse()'',
    [],
    tab @ ''if argChanges {'',
    tab @ tab @ ''version.PrintChangeLog()'',
    tab @ ''} else if argVersion {'',
    tab @ tab @ ''fmt.Printf("__NAME__ version %s'' @ backslash @ ''n", version.String())'',
    tab @ ''} else {'',
    tab @ tab @ ''// main'',
    tab @ ''}'',
    ''}'']\<close>

definition license_MIT :: Template where
  \<open>license_MIT =
   [''MIT License'',
    [],
    ''Copyright (c) 2020 __USER__'',
    [],
    ''Permission is hereby granted, free of charge, to any person obtaining a copy'',
    ''of this software and associated documentation files (the "Software"), to deal'',
    ''in the Software without restriction, including without limitation the rights'',
    ''to use, copy, modify, merge, publish, distribute, sublicense, and/or sell'',
    ''copies of the Software, and to permit persons to whom the Software is'',
    ''furnished to do so, subject to the following conditions:'',
    [],
    ''The above copyright notice and this permission notice shall be included in all'',
    ''copies or substantial portions of the Software.'',
    [],
    ''THE SOFTWARE IS PROVIDED "AS IS", WITHOUT WARRANTY OF ANY KIND, EXPRESS OR'',
    ''IMPLIED, INCLUDING BUT NOT LIMITED TO THE WARRANTIES OF MERCHANTABILITY,'',
    ''FITNESS FOR A PARTICULAR PURPOSE AND NONINFRINGEMENT. IN NO EVENT SHALL THE'',
    ''AUTHORS OR COPYRIGHT HOLDERS BE LIABLE FOR ANY CLAIM, DAMAGES OR OTHER'',
    ''LIABILITY, WHETHER IN AN ACTION OF CONTRACT, TORT OR OTHERWISE, ARISING FROM,'',
    ''OUT OF OR IN CONNECTION WITH THE SOFTWARE OR THE USE OR OTHER DEALINGS IN THE'',
    ''SOFTWARE.'' @ tab @ tab @ tab]\<close>

definition licenseTemplate :: "string \<rightharpoonup> Template" where
  "licenseTemplate = [''MIT'' \<mapsto> license_MIT]"

definition readme :: Template where
  \<open>readme =
   [''[docimg]:https://godoc.org/__IMPORT__?status.svg'',
    ''[docurl]:https://godoc.org/__IMPORT__'',
    ''[repimg]:https://goreportcard.com/badge/__IMPORT__'',
    ''[repurl]:https://goreportcard.com/report/__IMPORT__'',
    [],
    ''# __NAME__'',
    ''#### __NAME__'',
    [],
    ''[![GoDoc][docimg]][docurl] [![Go Report Card][repimg]][repurl]'',
    [],
    ''## Usage'',
    [],
    ''How to use:'',
    [],
    ''```sh'',
    ''__NAME__ ...'',
    ''```'',
    [],
    ''Use the `-h` flag for usage summary:'',
    [],
    ''```'',
    ''Usage of __NAME__:'',
    ''  -changelog'',
    tab @ tab @ ''display change history'',
    ''  -version'',
    tab @ tab @ ''display version information'',
    ''```'',
    [],
    ''## Installation'',
    [],
    ''Use the builtin Go package manager:'',
    [],
    ''```sh'',
    ''go get -v __IMPORT__'',
    ''```'']\<close>

subsection \<open>The operating system, as the program sees it\<close>

text \<open>
  A Go \<^verbatim>\<open>error\<close> value of the packages os and os/exec: what \<^verbatim>\<open>os.IsNotExist\<close>
  says about it, and its message.
\<close>

datatype errkind = NotExist | Permission | OtherError

datatype oserror = OSError errkind string

fun IsNotExist :: "oserror \<Rightarrow> bool" where
  "IsNotExist (OSError k m) = (k = NotExist)"

fun Error :: "oserror \<Rightarrow> string" where
  "Error (OSError k m) = m"

text \<open>An \<^verbatim>\<open>os.FileInfo\<close>; the program only asks whether it is a directory.\<close>

datatype fileinfo = FileInfo (IsDir: bool)

text \<open>
  The file system, the process table and the version package are outside the program.
  They are a parameter: a type \<open>'w\<close> of states of the world and the calls the program
  makes, each reading or changing the world. \<^verbatim>\<open>os.Stat\<close> returns a pair of a
  \<^verbatim>\<open>FileInfo\<close> and an error, either of which may be \<^verbatim>\<open>nil\<close>; on an error the
  library returns a \<^verbatim>\<open>nil\<close> \<^verbatim>\<open>FileInfo\<close>.
\<close>

record 'w system =
  Getenv :: "string \<Rightarrow> 'w \<Rightarrow> string"
  MkdirAll :: "string \<Rightarrow> nat \<Rightarrow> 'w \<Rightarrow> oserror option \<times> 'w"
  Stat :: "string \<Rightarrow> 'w \<Rightarrow> fileinfo option \<times> oserror option"
  WriteFile :: "string \<Rightarrow> string \<Rightarrow> nat \<Rightarrow> 'w \<Rightarrow> oserror option \<times> 'w"
  CombinedOutput :: "string \<Rightarrow> string list \<Rightarrow> string \<Rightarrow> 'w \<Rightarrow> (string \<times> oserror option) \<times> 'w"
  version_String :: "string"

text \<open>The permission bits \<^verbatim>\<open>os.ModePerm\<close> (octal 0777) and octal 0664.\<close>

definition ModePerm :: nat where
  "ModePerm = 511"

definition perm_0664 :: nat where
  "perm_0664 = 436"

text \<open>What a run does to the world and to standard output, in order.\<close>

datatype event =
    EvPrintChangeLog
  | EvPrintf string "string list"
  | EvPrintln string
  | EvPrint string
  | EvMkdirAll string nat "oserror option"
  | EvWriteFile string string nat "oserror option"
  | EvCommand string string "string list" string "oserror option"

text \<open>
  How a run ends: \<^verbatim>\<open>os.Exit(code)\<close>, the return of \<^verbatim>\<open>main\<close> (exit status 0), or
  a runtime panic (exit status 2).
\<close>

datatype panic = NilDereference

datatype outcome = Exit nat | Returned | Panicked panic

fun exit_code :: "outcome \<Rightarrow> nat" where
  "exit_code (Exit n) = n"
| "exit_code Returned = 0"
| "exit_code (Panicked p) = 2"

text \<open>
  \<^verbatim>\<open>execCmd\<close> builds the command, sets its working directory and returns its combined
  output with the error.
\<close>

definition execCmd ::
  "'w system \<Rightarrow> string \<Rightarrow> string \<Rightarrow> string list \<Rightarrow> 'w \<Rightarrow> (string \<times> oserror option) \<times> 'w" where
  "execCmd sys dir cmd arg w = CombinedOutput sys cmd arg dir w"

text \<open>
  \<^verbatim>\<open>fileExists\<close>. The conjunction \<^verbatim>\<open>exists && stat.IsDir()\<close> calls the method only
  when \<open>exists\<close> holds; calling it on a \<^verbatim>\<open>nil\<close> \<^verbatim>\<open>FileInfo\<close> panics.
\<close>

definition fileExists :: "'w system \<Rightarrow> string \<Rightarrow> 'w \<Rightarrow> panic + (bool \<times> bool)" where
  "fileExists sys path w =
     (case Stat sys path w of (stat, err) \<Rightarrow>
        let exists = (case err of None \<Rightarrow> True | Some e \<Rightarrow> \<not> IsNotExist e)
        in if exists then
             (case stat of
                None \<Rightarrow> Inl NilDereference
              | Some fi \<Rightarrow> Inr (exists, IsDir fi))
           else Inr (exists, False))"

subsection \<open>The entry point, base variant\<close>

text \<open>
  The flags after \<^verbatim>\<open>flag.Parse()\<close>, with the positional arguments \<^verbatim>\<open>flag.Args()\<close>.
  The defaults of \<^verbatim>\<open>-d\<close> (today's date) and \<^verbatim>\<open>-s\<close> are filled in by the parser.
\<close>

record flags =
  argChangeLog :: bool
  argVersion :: bool
  argMkDate :: string
  argMkVersion :: string
  argOverwrite :: bool
  Args :: "string list"

text \<open>
  \<^verbatim>\<open>main\<close> returns how the run ended, the world it left and the events in order;
  \<open>None\<close> is a run that never ends.
\<close>

definition main :: "'w system \<Rightarrow> flags \<Rightarrow> 'w \<Rightarrow> (outcome \<times> 'w \<times> event list) option" where
  "main sys fl w =
     (if argChangeLog fl then Some (Returned, w, [EvPrintChangeLog])
      else if argVersion fl then
        Some (Returned, w, [EvPrintf (''mkgo version %s'' @ newline) [version_String sys]])
      else if length (Args fl) = 0 then
        Some (Exit 1, w, [EvPrintln ''error: no package path specified (use -h for help)''])
      else
        (case packagePath (Getenv sys ''GOPATH'' w) (Args fl ! 0) of
           None \<Rightarrow> None
         | Some (path, name) \<Rightarrow>
            (case MkdirAll sys path ModePerm w of
               (Some err, w1) \<Rightarrow>
                 Some (Exit 2, w1,
                   [EvMkdirAll path ModePerm (Some err),
                    EvPrintf (''error: %s'' @ newline) [Error err]])
             | (None, w1) \<Rightarrow>
                 let t1 = [EvMkdirAll path ModePerm None];
                     sourcePath = Join [path, name @ ''.go'']
                 in
                 (case fileExists sys sourcePath w1 of
                    Inl p \<Rightarrow> Some (Panicked p, w1, t1)
                  | Inr (exists, isDir) \<Rightarrow>
                      if \<not> exists \<or> argOverwrite fl then
                        if isDir then
                          Some (Exit 3, w1, t1 @
                            [EvPrintf (''error: output file is a directory: %s'' @ newline)
                               [sourcePath]])
                        else
                          let text = Template_String
                                (Template_insert template name (argMkDate fl) (argMkVersion fl))
                          in
                          (case WriteFile sys sourcePath text perm_0664 w1 of
                             (Some err, w2) \<Rightarrow>
                               Some (Exit 4, w2, t1 @
                                 [EvWriteFile sourcePath text perm_0664 (Some err),
                                  EvPrintf (''error: %s'' @ newline) [Error err]])
                           | (None, w2) \<Rightarrow>
                               let t2 = t1 @ [EvWriteFile sourcePath text perm_0664 None] in
                               (case execCmd sys path ''goimports'' [''-w'', name @ ''.go''] w2 of
                                  ((out, Some err), w3) \<Rightarrow>
                                    Some (Exit 5, w3, t2 @
                                      [EvCommand path ''goimports'' [''-w'', name @ ''.go'']
                                         out (Some err),
                                       EvPrint out])
                                | ((out, None), w3) \<Rightarrow>
                                    let t3 = t2 @
                                      [EvCommand path ''goimports'' [''-w'', name @ ''.go'']
                                         out None]
                                    in
                                    (case execCmd sys path ''go'' [''mod'', ''init''] w3 of
                                       ((out, Some err), w4) \<Rightarrow>
                                         Some (Exit 6, w4, t3 @
                                           [EvCommand path ''go'' [''mod'', ''init'']
                                              out (Some err),
                                            EvPrint out])
                                     | ((out, None), w4) \<Rightarrow>
                                         Some (Returned, w4, t3 @
                                           [EvCommand path ''go'' [''mod'', ''init''] out None,
                                            EvPrintf
                                              (''mkgo: successfully created %q: %s'' @ newline)
                                              [Args fl ! 0, path]]))))
                      else
                        Some (Exit 7, w1, t1 @
                          [EvPrintf (''error: file exists (use -f to overwrite): %s'' @ newline)
                             [sourcePath]])))))"

subsection \<open>The entry point, extended variant\<close>

text \<open>
  The extended variant adds three flags (and calls the first flag \<^verbatim>\<open>argChanges\<close>). After
  the destination directory is made, its \<^verbatim>\<open>main\<close> is a sequence of three blocks: the
  source file with the two tools, the license file, the readme file; then the message of
  success. Each block either ends the run (\<open>Inl\<close>) or falls through to the next
  statement (\<open>Inr\<close>) with the world and the events so far.
\<close>

record flags_ext = flags +
  argReadme :: bool
  argLicense :: string
  argUser :: string

type_synonym 'w step = "(outcome \<times> 'w \<times> event list) + ('w \<times> event list)"

definition main_ext_source ::
  "'w system \<Rightarrow> flags_ext \<Rightarrow> string \<Rightarrow> string \<Rightarrow> 'w \<Rightarrow> event list \<Rightarrow> 'w step" where
  "main_ext_source sys fl path name w1 t1 =
     (let sourcePath = Join [path, name @ ''.go''] in
      case fileExists sys sourcePath w1 of
        Inl p \<Rightarrow> Inl (Panicked p, w1, t1)
      | Inr (exists, isDir) \<Rightarrow>
          if \<not> exists \<or> argOverwrite fl then
            if isDir then
              Inl (Exit 3, w1, t1 @
                [EvPrintf (''error: output file is a directory: %s'' @ newline) [sourcePath]])
            else
              let text = Template_String
                    (Template_insert_ext template_ext (Args fl ! 0) name
                       (argMkDate fl) (argMkVersion fl) (argUser fl))
              in
              (case WriteFile sys sourcePath text perm_0664 w1 of
                 (Some err, w2) \<Rightarrow>
                   Inl (Exit 4, w2, t1 @
                     [EvWriteFile sourcePath text perm_0664 (Some err),
                      EvPrintf (''error: %s'' @ newline) [Error err]])
               | (None, w2) \<Rightarrow>
                   let t2 = t1 @ [EvWriteFile sourcePath text perm_0664 None] in
                   (case execCmd sys path ''goimports'' [''-w'', name @ ''.go''] w2 of
                      ((out, Some err), w3) \<Rightarrow>
                        Inl (Exit 5, w3, t2 @
                          [EvCommand path ''goimports'' [''-w'', name @ ''.go''] out (Some err),
                           EvPrint out])
                    | ((out, None), w3) \<Rightarrow>
                        let t3 = t2 @
                          [EvCommand path ''goimports'' [''-w'', name @ ''.go''] out None]
                        in
                        (case execCmd sys path ''go'' [''mod'', ''init''] w3 of
                           ((out, Some err), w4) \<Rightarrow>
                             Inl (Exit 6, w4, t3 @
                               [EvCommand path ''go'' [''mod'', ''init''] out (Some err),
                                EvPrint out])
                         | ((out, None), w4) \<Rightarrow>
                             Inr (w4, t3 @
                               [EvCommand path ''go'' [''mod'', ''init''] out None]))))
          else
            Inl (Exit 7, w1, t1 @
              [EvPrintf (''error: file exists (use -f to overwrite): %s'' @ newline)
                 [sourcePath]]))"

definition main_ext_license ::
  "'w system \<Rightarrow> flags_ext \<Rightarrow> string \<Rightarrow> string \<Rightarrow> 'w \<Rightarrow> event list \<Rightarrow> 'w step" where
  "main_ext_license sys fl path name w t =
     (let licensePath = Join [path, ''LICENSE''] in
      case licenseTemplate (argLicense fl) of
        None \<Rightarrow>
          Inl (Exit 8, w, t @
            [EvPrintf (''error: unsupported license (use -h to view options): %s'' @ newline)
               [argLicense fl]])
      | Some license \<Rightarrow>
          (case fileExists sys licensePath w of
             Inl p \<Rightarrow> Inl (Panicked p, w, t)
           | Inr (exists, isDir) \<Rightarrow>
               if \<not> exists \<or> argOverwrite fl then
                 if isDir then
                   Inl (Exit 9, w, t @
                     [EvPrintf (''error: output file is a directory: %s'' @ newline)
                        [licensePath]])
                 else
                   let text = Template_String
                         (Template_insert_ext license (Args fl ! 0) name
                            (argMkDate fl) (argMkVersion fl) (argUser fl))
                   in
                   (case WriteFile sys licensePath text perm_0664 w of
                      (Some err, w1) \<Rightarrow>
                        Inl (Exit 10, w1, t @
                          [EvWriteFile licensePath text perm_0664 (Some err),
                           EvPrintf (''error: %s'' @ newline) [Error err]])
                    | (None, w1) \<Rightarrow>
                        Inr (w1, t @ [EvWriteFile licensePath text perm_0664 None]))
               else
                 Inl (Exit 11, w, t @
                   [EvPrintf (''error: file exists (use -f to overwrite): %s'' @ newline)
                      [licensePath]])))"

definition main_ext_readme ::
  "'w system \<Rightarrow> flags_ext \<Rightarrow> string \<Rightarrow> string \<Rightarrow> 'w \<Rightarrow> event list \<Rightarrow> 'w step" where
  "main_ext_readme sys fl path name w t =
     (let readmePath = Join [path, ''README.md''] in
      case fileExists sys readmePath w of
        Inl p \<Rightarrow> Inl (Panicked p, w, t)
      | Inr (exists, isDir) \<Rightarrow>
          if \<not> exists \<or> argOverwrite fl then
            if isDir then
              Inl (Exit 9, w, t @
                [EvPrintf (''error: output file is a directory: %s'' @ newline) [readmePath]])
            else
              let text = Template_String
                    (Template_insert_ext readme (Args fl ! 0) name
                       (argMkDate fl) (argMkVersion fl) (argUser fl))
              in
              (case WriteFile sys readmePath text perm_0664 w of
                 (Some err, w1) \<Rightarrow>
                   Inl (Exit 10, w1, t @
                     [EvWriteFile readmePath text perm_0664 (Some err),
                      EvPrintf (''error: %s'' @ newline) [Error err]])
               | (None, w1) \<Rightarrow>
                   Inr (w1, t @ [EvWriteFile readmePath text perm_0664 None]))
          else
            Inl (Exit 11, w, t @
              [EvPrintf (''error: file exists (use -f to overwrite): %s'' @ newline)
                 [readmePath]]))"

definition main_ext ::
  "'w system \<Rightarrow> flags_ext \<Rightarrow> 'w \<Rightarrow> (outcome \<times> 'w \<times> event list) option" where
  "main_ext sys fl w =
     (if argChangeLog fl then Some (Returned, w, [EvPrintChangeLog])
      else if argVersion fl then
        Some (Returned, w, [EvPrintf (''mkgo version %s'' @ newline) [version_String sys]])
      else if length (Args fl) = 0 then
        Some (Exit 1, w, [EvPrintln ''error: no package path specified (use -h for help)''])
      else
        (case packagePath (Getenv sys ''GOPATH'' w) (Args fl ! 0) of
           None \<Rightarrow> None
         | Some (path, name) \<Rightarrow>
            (case MkdirAll sys path ModePerm w of
               (Some err, w1) \<Rightarrow>
                 Some (Exit 2, w1,
                   [EvMkdirAll path ModePerm (Some err),
                    EvPrintf (''error: %s'' @ newline) [Error err]])
             | (None, w1) \<Rightarrow>
                 (case main_ext_source sys fl path name w1 [EvMkdirAll path ModePerm None] of
                    Inl r \<Rightarrow> Some r
                  | Inr (w4, t4) \<Rightarrow>
                      (case main_ext_license sys fl path name w4 t4 of
                         Inl r \<Rightarrow> Some r
                       | Inr (w5, t5) \<Rightarrow>
                           (case main_ext_readme sys fl path name w5 t5 of
                              Inl r \<Rightarrow> Some r
                            | Inr (w6, t6) \<Rightarrow>
                                Some (Returned, w6, t6 @
                                  [EvPrintf (''mkgo: successfully created %q: %s'' @ newline)
                                     [Args fl ! 0, path]])))))))"

subsection \<open>A small world for running the program\<close>

text \<open>
  To run the model on concrete inputs: a world is a table from paths to nodes, every
  call succeeds unless the table forbids it, the two tools print nothing and change
  nothing. A node \<open>Denied\<close> is a path that \<^verbatim>\<open>os.Stat\<close> may not look at.
\<close>

datatype node = Dir | File string | Denied

type_synonym world = "(string \<times> node) list"

definition lookup_node :: "world \<Rightarrow> string \<Rightarrow> node option" where
  "lookup_node w p = map_of w p"

definition table_Stat :: "string \<Rightarrow> world \<Rightarrow> fileinfo option \<times> oserror option" where
  "table_Stat p w =
     (case lookup_node w p of
        None \<Rightarrow> (None, Some (OSError NotExist ''no such file or directory''))
      | Some Dir \<Rightarrow> (Some (FileInfo True), None)
      | Some (File c) \<Rightarrow> (Some (FileInfo False), None)
      | Some Denied \<Rightarrow> (None, Some (OSError Permission ''permission denied'')))"

definition table_MkdirAll :: "string \<Rightarrow> nat \<Rightarrow> world \<Rightarrow> oserror option \<times> world" where
  "table_MkdirAll p perm w =
     (case lookup_node w p of
        None \<Rightarrow> (None, (p, Dir) # w)
      | Some Dir \<Rightarrow> (None, w)
      | Some (File c) \<Rightarrow> (Some (OSError OtherError ''not a directory''), w)
      | Some Denied \<Rightarrow> (Some (OSError Permission ''permission denied''), w))"

definition table_WriteFile ::
  "string \<Rightarrow> string \<Rightarrow> nat \<Rightarrow> world \<Rightarrow> oserror option \<times> world" where
  "table_WriteFile p text perm w =
     (case lookup_node w p of
        Some Dir \<Rightarrow> (Some (OSError OtherError ''is a directory''), w)
      | Some Denied \<Rightarrow> (Some (OSError Permission ''permission denied''), w)
      | _ \<Rightarrow> (None, (p, File text) # w))"

definition table_system :: "string \<Rightarrow> world system" where
  "table_system gopath =
     \<lparr> Getenv = (\<lambda>k w. if k = ''GOPATH'' then gopath else []),
       MkdirAll = table_MkdirAll,
       Stat = table_Stat,
       WriteFile = table_WriteFile,
       CombinedOutput = (\<lambda>cmd arg dir w. (([], None), w)),
       version_String = ''0.1.0'' \<rparr>"

text \<open>
  The same world with a script for the calls that can fail: the error of
  \<^verbatim>\<open>ioutil.WriteFile\<close>, of the formatting tool and of the module tool, if any. Each
  tool prints a line.
\<close>

definition scripted_system ::
  "string \<Rightarrow> oserror option \<Rightarrow> oserror option \<Rightarrow> oserror option \<Rightarrow> world system" where
  "scripted_system gopath werr ferr merr =
     (table_system gopath)
       \<lparr> WriteFile := (\<lambda>p c m w.
            case werr of None \<Rightarrow> table_WriteFile p c m w | Some e \<Rightarrow> (Some e, w)),
         CombinedOutput := (\<lambda>cmd arg dir w.
            if cmd = ''goimports'' then ((''goimports output'', ferr), w)
            else ((''go output'', merr), w)) \<rparr>"

definition base_flags :: "string list \<Rightarrow> flags" where
  "base_flags args =
     \<lparr> argChangeLog = False, argVersion = False, argMkDate = ''2020 Oct 10'',
       argMkVersion = ''0.1.0'', argOverwrite = False, Args = args \<rparr>"

definition ext_flags :: "string list \<Rightarrow> flags_ext" where
  "ext_flags args =
     \<lparr> argChangeLog = False, argVersion = False, argMkDate = ''2020 Oct 10'',
       argMkVersion = ''0.1.0'', argOverwrite = False, Args = args,
       argReadme = False, argLicense = [], argUser = ''andrew'' \<rparr>"

subsection \<open>Notions for stating the properties\<close>

text \<open>
  The run gets as far as the check of the source file: neither informational flag is set,
  there is a positional argument, the resolver returns the destination \<open>path\<close> and the
  short \<open>name\<close>, and \<^verbatim>\<open>os.MkdirAll\<close> succeeds and leaves the world \<open>w1\<close>.
\<close>

definition destination_ready ::
  "'w system \<Rightarrow> 'a flags_scheme \<Rightarrow> 'w \<Rightarrow> string \<Rightarrow> string \<Rightarrow> 'w \<Rightarrow> bool" where
  "destination_ready sys fl w path name w1 =
     (\<not> argChangeLog fl \<and> \<not> argVersion fl \<and> length (Args fl) \<noteq> 0 \<and>
      packagePath (Getenv sys ''GOPATH'' w) (Args fl ! 0) = Some (path, name) \<and>
      MkdirAll sys path ModePerm w = (None, w1))"

text \<open>
  The check of an output file lets the write go ahead: \<^verbatim>\<open>fileExists\<close> returns, the
  file is not there or the force flag is set, and the path is not a directory.
\<close>

definition write_allowed :: "'w system \<Rightarrow> 'a flags_scheme \<Rightarrow> string \<Rightarrow> 'w \<Rightarrow> bool" where
  "write_allowed sys fl p w =
     (case fileExists sys p w of
        Inl e \<Rightarrow> False
      | Inr (exists, isDir) \<Rightarrow> (\<not> exists \<or> argOverwrite fl) \<and> \<not> isDir)"

text \<open>The rendered source file of the base variant and of the extended variant.\<close>

definition source_text :: "flags \<Rightarrow> string \<Rightarrow> string" where
  "source_text fl name =
     Template_String (Template_insert template name (argMkDate fl) (argMkVersion fl))"

definition source_text_ext :: "flags_ext \<Rightarrow> string \<Rightarrow> string" where
  "source_text_ext fl name =
     Template_String
       (Template_insert_ext template_ext (Args fl ! 0) name
          (argMkDate fl) (argMkVersion fl) (argUser fl))"

text \<open>The paths of the successful writes in a list of events, in order.\<close>

fun written_paths :: "event list \<Rightarrow> string list" where
  "written_paths [] = []"
| "written_paths (EvWriteFile p c m None # es) = p # written_paths es"
| "written_paths (ev # es) = written_paths es"

text \<open>
  Worlds for the module \<^verbatim>\<open>a/b\<close> under the base directory \<^verbatim>\<open>/go\<close>: the source
  file is there already; a directory sits where the source file, the license file or the
  readme file should go.
\<close>

definition world_file :: world where
  "world_file = [(''/go/src/a/b'', Dir), (''/go/src/a/b/b.go'', File ''old'')]"

definition world_dir :: world where
  "world_dir = [(''/go/src/a/b'', Dir), (''/go/src/a/b/b.go'', Dir)]"

definition world_license_dir :: world where
  "world_license_dir = [(''/go/src/a/b'', Dir), (''/go/src/a/b/LICENSE'', Dir)]"

definition world_readme_dir :: world where
  "world_readme_dir = [(''/go/src/a/b'', Dir), (''/go/src/a/b/README.md'', Dir)]"

text \<open>
  For the template engine. \<^verbatim>\<open>strings.Contains(s, substr)\<close>; the sentinel of a token;
  and the two shapes of line that the compiled-in templates are made of: a plain line, with
  no underscore, and a line with one sentinel between two texts with no underscore. For a
  substitution context (token and value, the first entry of a token counts), \<open>fill\<close> is
  the line with the value in the place of the sentinel, or the line as it is when the
  token has no value. \<open>parse_line\<close> reads a string as a line of one of the two shapes
  by its fields between underscores, and \<open>replace_tokens\<close> is the nested replacement
  of \<^verbatim>\<open>insert\<close> for a list of tokens, innermost first.
\<close>

fun Contains :: "string \<Rightarrow> string \<Rightarrow> bool" where
  "Contains [] substr = (substr = [])"
| "Contains (c # cs) substr = (HasPrefix (c # cs) substr \<or> Contains cs substr)"

definition sentinel :: "string \<Rightarrow> string" where
  "sentinel key = ''__'' @ key @ ''__''"

datatype line = Plain string | Slot string string string

fun line_text :: "line \<Rightarrow> string" where
  "line_text (Plain s) = s"
| "line_text (Slot pre key post) = pre @ sentinel key @ post"

fun line_ok :: "line \<Rightarrow> bool" where
  "line_ok (Plain s) = (CHR ''_'' \<notin> set s)"
| "line_ok (Slot pre key post) =
     (CHR ''_'' \<notin> set pre \<and> CHR ''_'' \<notin> set key \<and> CHR ''_'' \<notin> set post)"

fun fill :: "(string \<times> string) list \<Rightarrow> line \<Rightarrow> string" where
  "fill ctx (Plain s) = s"
| "fill ctx (Slot pre key post) =
     pre @ (case map_of ctx key of Some v \<Rightarrow> v | None \<Rightarrow> sentinel key) @ post"

fun parse_line :: "string \<Rightarrow> line option" where
  "parse_line s =
     (case strings_Split s CHR ''_'' of
        [t] \<Rightarrow> Some (Plain t)
      | [pre, [], key, [], post] \<Rightarrow> Some (Slot pre key post)
      | _ \<Rightarrow> None)"

declare parse_line.simps [simp del]

fun replace_tokens :: "(string \<times> string) list \<Rightarrow> string \<Rightarrow> string" where
  "replace_tokens [] s = s"
| "replace_tokens ((key, v) # ctx) s = replace_tokens ctx (ReplaceAll s (sentinel key) v)"

text \<open>The contexts of the two variants, and: no value of a context holds a sentinel of it.\<close>

definition context_base :: "string \<Rightarrow> string \<Rightarrow> string \<Rightarrow> (string \<times> string) list" where
  "context_base name date version =
     [(''NAME'', name), (''DATE'', date), (''VERSION'', version)]"

definition context_ext ::
  "string \<Rightarrow> string \<Rightarrow> string \<Rightarrow> string \<Rightarrow> string \<Rightarrow> (string \<times> string) list" where
  "context_ext path name date version user =
     [(''IMPORT'', path), (''NAME'', name), (''DATE'', date), (''VERSION'', version),
      (''USER'', user)]"

definition values_clean :: "(string \<times> string) list \<Rightarrow> bool" where
  "values_clean ctx =
     (\<forall>v \<in> set (map snd ctx). \<forall>key \<in> set (map fst ctx). \<not> Contains v (sentinel key))"

section \<open>Verified properties\<close>

subsection \<open>The change history flag\<close>

text \<open>
  Claim C8. When the flag \<^verbatim>\<open>-changelog\<close> is set, whatever the other flags and
  arguments are, the run prints the change history and nothing else, ends with exit status
  0 and leaves the world as it found it: it makes no directory, writes no file and starts no
  tool. This holds in both variants.
\<close>

theorem changelog_prints_and_changes_nothing:
  "(argChangeLog fl \<longrightarrow>
      (\<exists>oc. main sys fl w = Some (oc, w, [EvPrintChangeLog]) \<and> exit_code oc = 0)) \<and>
   (argChangeLog fle \<longrightarrow>
      (\<exists>oc. main_ext sys fle w = Some (oc, w, [EvPrintChangeLog]) \<and> exit_code oc = 0))"
  by (simp add: main_def main_ext_def)

theorem changelog_prints_and_changes_nothing_witness:
  "argChangeLog ((base_flags [''a/b'', ''c''])
     \<lparr>argChangeLog := True, argVersion := True, argOverwrite := True\<rparr>) \<and>
   (\<exists>oc. main (table_system ''/go'')
          ((base_flags [''a/b'', ''c''])
             \<lparr>argChangeLog := True, argVersion := True, argOverwrite := True\<rparr>)
          [(''/go/src/a/b/b.go'', File ''old'')]
        = Some (oc, [(''/go/src/a/b/b.go'', File ''old'')], [EvPrintChangeLog]) \<and>
      exit_code oc = 0) \<and>
   argChangeLog ((ext_flags [])
     \<lparr>argChangeLog := True, argReadme := True, argLicense := ''GPL''\<rparr>) \<and>
   (\<exists>oc. main_ext (table_system ''/go'')
          ((ext_flags [])\<lparr>argChangeLog := True, argReadme := True, argLicense := ''GPL''\<rparr>)
          [(''/go/src/a/b/b.go'', File ''old'')]
        = Some (oc, [(''/go/src/a/b/b.go'', File ''old'')], [EvPrintChangeLog]) \<and>
      exit_code oc = 0)"
  using changelog_prints_and_changes_nothing
    [of "(base_flags [''a/b'', ''c''])
           \<lparr>argChangeLog := True, argVersion := True, argOverwrite := True\<rparr>"
        "table_system ''/go''" "[(''/go/src/a/b/b.go'', File ''old'')]"
        "(ext_flags [])\<lparr>argChangeLog := True, argReadme := True, argLicense := ''GPL''\<rparr>"]
  by (simp add: base_flags_def ext_flags_def)

subsection \<open>fileExists\<close>

text \<open>
  Claim C10 says that \<^verbatim>\<open>fileExists\<close> returns a pair for every outcome of
  \<^verbatim>\<open>os.Stat\<close> and never calls a method of a \<^verbatim>\<open>nil\<close> \<^verbatim>\<open>FileInfo\<close>. The code
  does otherwise: when \<^verbatim>\<open>os.Stat\<close> fails with an error that is not a not-exist error
  (permission denied, say), \<open>exists\<close> is true, the \<^verbatim>\<open>FileInfo\<close> is \<^verbatim>\<open>nil\<close>, and
  \<^verbatim>\<open>stat.IsDir()\<close> panics.
\<close>

theorem fileExists_panics_on_other_error:
  "Stat sys path w = (None, Some e) \<Longrightarrow> \<not> IsNotExist e \<Longrightarrow>
   fileExists sys path w = Inl NilDereference"
  by (simp add: fileExists_def)

theorem fileExists_panics_on_other_error_witness:
  "Stat (table_system ''/go'') ''/go/src/a/b/b.go'' [(''/go/src/a/b/b.go'', Denied)]
     = (None, Some (OSError Permission ''permission denied'')) \<and>
   \<not> IsNotExist (OSError Permission ''permission denied'') \<and>
   fileExists (table_system ''/go'') ''/go/src/a/b/b.go'' [(''/go/src/a/b/b.go'', Denied)]
     = Inl NilDereference"
proof -
  have s: "Stat (table_system ''/go'') ''/go/src/a/b/b.go'' [(''/go/src/a/b/b.go'', Denied)]
     = (None, Some (OSError Permission ''permission denied''))"
    by (simp add: table_system_def table_Stat_def lookup_node_def)
  have n: "\<not> IsNotExist (OSError Permission ''permission denied'')" by simp
  from fileExists_panics_on_other_error [OF s n] s n show ?thesis by simp
qed

subsection \<open>Running the program in the small world\<close>

lemma packagePath_a_b: "packagePath ''/go'' ''a/b'' = Some (''/go/src/a/b'', ''b'')"
  by code_simp

lemma Join_source_a_b: "Join [''/go/src/a/b'', ''b.go''] = ''/go/src/a/b/b.go''"
  by code_simp

lemma Join_license_a_b: "Join [''/go/src/a/b'', ''LICENSE''] = ''/go/src/a/b/LICENSE''"
  by code_simp

lemma Join_readme_a_b: "Join [''/go/src/a/b'', ''README.md''] = ''/go/src/a/b/README.md''"
  by code_simp

lemmas table_simps =
  table_system_def table_Stat_def table_MkdirAll_def table_WriteFile_def lookup_node_def
  fileExists_def execCmd_def base_flags_def ext_flags_def Let_def
  world_file_def world_dir_def world_license_dir_def world_readme_dir_def
  packagePath_a_b Join_source_a_b Join_license_a_b Join_readme_a_b

lemmas main_ext_defs =
  main_ext_def main_ext_source_def main_ext_license_def main_ext_readme_def
  licenseTemplate_def

lemma fileExists_regular:
  "Stat sys p w = (Some (FileInfo False), None) \<Longrightarrow> fileExists sys p w = Inr (True, False)"
  by (simp add: fileExists_def)

lemma fileExists_directory:
  "Stat sys p w = (Some (FileInfo True), None) \<Longrightarrow> fileExists sys p w = Inr (True, True)"
  by (simp add: fileExists_def)

lemma destination_ready_a_b:
  "w = world_file \<or> w = world_dir \<or> w = world_license_dir \<or> w = world_readme_dir \<Longrightarrow>
   argChangeLog fl = False \<Longrightarrow> argVersion fl = False \<Longrightarrow> Args fl = [''a/b''] \<Longrightarrow>
   destination_ready (table_system ''/go'') fl w ''/go/src/a/b'' ''b'' w"
  by (auto simp: destination_ready_def table_simps)

subsection \<open>An existing source file without the force flag\<close>

text \<open>
  Claim C6. When the run gets to the check of the source file, the path of the source file
  is an existing regular file and the force flag is not set, the run ends with exit code 7.
  Its only events are the call of \<^verbatim>\<open>os.MkdirAll\<close> and the error message: nothing is
  written and no tool is started, and the world is the one in which the file was seen.
  This holds in both variants.
\<close>

theorem existing_file_without_force:
  fixes fl :: flags and fle :: flags_ext
  shows
  "(destination_ready sys fl w path name w1 \<and>
    Stat sys (Join [path, name @ ''.go'']) w1 = (Some (FileInfo False), None) \<and>
    \<not> argOverwrite fl \<longrightarrow>
    main sys fl w = Some (Exit 7, w1,
      [EvMkdirAll path ModePerm None,
       EvPrintf (''error: file exists (use -f to overwrite): %s'' @ newline)
         [Join [path, name @ ''.go'']]])) \<and>
   (destination_ready sys fle w path name w1 \<and>
    Stat sys (Join [path, name @ ''.go'']) w1 = (Some (FileInfo False), None) \<and>
    \<not> argOverwrite fle \<longrightarrow>
    main_ext sys fle w = Some (Exit 7, w1,
      [EvMkdirAll path ModePerm None,
       EvPrintf (''error: file exists (use -f to overwrite): %s'' @ newline)
         [Join [path, name @ ''.go'']]]))"
  by (simp add: destination_ready_def main_def main_ext_def main_ext_source_def
      fileExists_regular)

theorem existing_file_without_force_witness:
  "destination_ready (table_system ''/go'') (base_flags [''a/b'']) world_file
     ''/go/src/a/b'' ''b'' world_file \<and>
   Stat (table_system ''/go'') (Join [''/go/src/a/b'', ''b'' @ ''.go'']) world_file
     = (Some (FileInfo False), None) \<and>
   argOverwrite (base_flags [''a/b'']) = False \<and>
   main (table_system ''/go'') (base_flags [''a/b'']) world_file
     = Some (Exit 7, world_file,
         [EvMkdirAll ''/go/src/a/b'' ModePerm None,
          EvPrintf (''error: file exists (use -f to overwrite): %s'' @ newline)
            [''/go/src/a/b/b.go'']]) \<and>
   destination_ready (table_system ''/go'') (ext_flags [''a/b'']) world_file
     ''/go/src/a/b'' ''b'' world_file \<and>
   argOverwrite (ext_flags [''a/b'']) = False \<and>
   main_ext (table_system ''/go'') (ext_flags [''a/b'']) world_file
     = Some (Exit 7, world_file,
         [EvMkdirAll ''/go/src/a/b'' ModePerm None,
          EvPrintf (''error: file exists (use -f to overwrite): %s'' @ newline)
            [''/go/src/a/b/b.go'']])"
proof -
  have d: "destination_ready (table_system ''/go'') (base_flags [''a/b'']) world_file
             ''/go/src/a/b'' ''b'' world_file"
    by (rule destination_ready_a_b) (simp_all add: base_flags_def)
  have de: "destination_ready (table_system ''/go'') (ext_flags [''a/b'']) world_file
             ''/go/src/a/b'' ''b'' world_file"
    by (rule destination_ready_a_b) (simp_all add: ext_flags_def)
  have s: "Stat (table_system ''/go'') (Join [''/go/src/a/b'', ''b'' @ ''.go'']) world_file
             = (Some (FileInfo False), None)"
    by (simp add: table_simps)
  have f: "\<not> argOverwrite (base_flags [''a/b''])" "\<not> argOverwrite (ext_flags [''a/b''])"
    by (simp_all add: base_flags_def ext_flags_def)
  from existing_file_without_force
         [where sys = "table_system ''/go''" and fl = "base_flags [''a/b'']"
            and w = world_file and path = "''/go/src/a/b''" and name = "''b''"
            and ?w1.0 = world_file and fle = "ext_flags [''a/b'']"]
       d de s f
  show ?thesis by (simp add: Join_source_a_b)
qed

subsection \<open>A directory in the place of an output file\<close>

text \<open>
  Claim C1 says that a directory in the place of an output file ends the run with the
  is-a-directory code (3 for the source file, 9 for the license and readme files) whether
  or not the force flag is set. Without the force flag the code does not get to that
  check: the directory exists, so the run takes the branch of an existing file and ends
  with code 7.
\<close>

theorem directory_without_force_counterexample:
  "Stat (table_system ''/go'') ''/go/src/a/b/b.go'' world_dir = (Some (FileInfo True), None) \<and>
   argOverwrite (base_flags [''a/b'']) = False \<and>
   map_option fst (main (table_system ''/go'') (base_flags [''a/b'']) world_dir)
     = Some (Exit 7)"
  by (simp add: main_def table_simps)

text \<open>
  Claim C1, amended. When the path of an output file is an existing directory, the run ends
  at the check of that file: with the force flag set it ends with the is-a-directory code
  (3 for the source file, 9 for the license file and for the readme file), without the
  force flag it ends with the file-exists code (7 for the source file, 11 for the license
  file and for the readme file). The source file is checked in both variants once the
  destination is ready; the license file is checked in the extended variant after the
  block of the source file fell through, when the license is a known one; the readme file
  after the block of the license file fell through.
\<close>

theorem directory_conflict_by_force:
  fixes fl :: flags and fle :: flags_ext
  shows
  "(destination_ready sys fl w path name w1 \<and>
    Stat sys (Join [path, name @ ''.go'']) w1 = (Some (FileInfo True), None) \<longrightarrow>
    (\<exists>tr. main sys fl w = Some (Exit (if argOverwrite fl then 3 else 7), w1, tr))) \<and>
   (destination_ready sys fle w path name w1 \<and>
    Stat sys (Join [path, name @ ''.go'']) w1 = (Some (FileInfo True), None) \<longrightarrow>
    (\<exists>tr. main_ext sys fle w = Some (Exit (if argOverwrite fle then 3 else 7), w1, tr))) \<and>
   (destination_ready sys fle w path name w1 \<and>
    main_ext_source sys fle path name w1 [EvMkdirAll path ModePerm None] = Inr (w4, t4) \<and>
    licenseTemplate (argLicense fle) = Some license \<and>
    Stat sys (Join [path, ''LICENSE'']) w4 = (Some (FileInfo True), None) \<longrightarrow>
    (\<exists>tr. main_ext sys fle w = Some (Exit (if argOverwrite fle then 9 else 11), w4, tr))) \<and>
   (destination_ready sys fle w path name w1 \<and>
    main_ext_source sys fle path name w1 [EvMkdirAll path ModePerm None] = Inr (w4, t4) \<and>
    main_ext_license sys fle path name w4 t4 = Inr (w5, t5) \<and>
    Stat sys (Join [path, ''README.md'']) w5 = (Some (FileInfo True), None) \<longrightarrow>
    (\<exists>tr. main_ext sys fle w = Some (Exit (if argOverwrite fle then 9 else 11), w5, tr)))"
  by (simp add: destination_ready_def main_def main_ext_def main_ext_source_def
      main_ext_license_def main_ext_readme_def fileExists_directory)

theorem directory_conflict_by_force_witness:
  "Stat (table_system ''/go'') (Join [''/go/src/a/b'', ''b'' @ ''.go'']) world_dir
     = (Some (FileInfo True), None) \<and>
   map_option fst (main (table_system ''/go'') (base_flags [''a/b'']) world_dir)
     = Some (Exit 7) \<and>
   map_option fst
     (main (table_system ''/go'') ((base_flags [''a/b''])\<lparr>argOverwrite := True\<rparr>) world_dir)
     = Some (Exit 3) \<and>
   map_option fst
     (main_ext (table_system ''/go'') ((ext_flags [''a/b''])\<lparr>argOverwrite := True\<rparr>) world_dir)
     = Some (Exit 3) \<and>
   map_option fst
     (main_ext (table_system ''/go'')
        ((ext_flags [''a/b''])\<lparr>argOverwrite := True, argLicense := ''MIT''\<rparr>) world_license_dir)
     = Some (Exit 9) \<and>
   map_option fst
     (main_ext (table_system ''/go'')
        ((ext_flags [''a/b''])\<lparr>argLicense := ''MIT''\<rparr>) world_readme_dir)
     = Some (Exit 11)"
proof -
  let ?sys = "table_system ''/go''"
  let ?t1 = "[EvMkdirAll ''/go/src/a/b'' ModePerm None]"
  let ?f7 = "base_flags [''a/b'']"
  let ?f3 = "(base_flags [''a/b''])\<lparr>argOverwrite := True\<rparr>"
  let ?e3 = "(ext_flags [''a/b''])\<lparr>argOverwrite := True\<rparr>"
  let ?e9 = "(ext_flags [''a/b''])\<lparr>argOverwrite := True, argLicense := ''MIT''\<rparr>"
  let ?e11 = "(ext_flags [''a/b''])\<lparr>argLicense := ''MIT''\<rparr>"
  have s: "Stat ?sys (Join [''/go/src/a/b'', ''b'' @ ''.go'']) world_dir
             = (Some (FileInfo True), None)"
    by (simp add: table_simps)
  have d7: "destination_ready ?sys ?f7 world_dir ''/go/src/a/b'' ''b'' world_dir"
    by (rule destination_ready_a_b) (simp_all add: base_flags_def)
  have d3: "destination_ready ?sys ?f3 world_dir ''/go/src/a/b'' ''b'' world_dir"
    by (rule destination_ready_a_b) (simp_all add: base_flags_def)
  have de3: "destination_ready ?sys ?e3 world_dir ''/go/src/a/b'' ''b'' world_dir"
    by (rule destination_ready_a_b) (simp_all add: ext_flags_def)
  have r7: "map_option fst (main ?sys ?f7 world_dir) = Some (Exit 7)"
    using directory_conflict_by_force [THEN conjunct1, rule_format, OF conjI [OF d7 s]]
    by (auto simp: base_flags_def)
  have r3: "map_option fst (main ?sys ?f3 world_dir) = Some (Exit 3)"
    using directory_conflict_by_force [THEN conjunct1, rule_format, OF conjI [OF d3 s]]
    by (auto simp: base_flags_def)
  have re3: "map_option fst (main_ext ?sys ?e3 world_dir) = Some (Exit 3)"
    using directory_conflict_by_force
            [THEN conjunct2, THEN conjunct1, rule_format, OF conjI [OF de3 s]]
    by (auto simp: ext_flags_def)
  obtain w4 t4 where
    src9: "main_ext_source ?sys ?e9 ''/go/src/a/b'' ''b'' world_license_dir ?t1 = Inr (w4, t4)"
    and st9: "Stat ?sys (Join [''/go/src/a/b'', ''LICENSE'']) w4 = (Some (FileInfo True), None)"
    by (simp add: main_ext_source_def table_simps)
  have d9: "destination_ready ?sys ?e9 world_license_dir ''/go/src/a/b'' ''b''
              world_license_dir"
    by (rule destination_ready_a_b) (simp_all add: ext_flags_def)
  have l9: "licenseTemplate (argLicense ?e9) = Some license_MIT"
    by (simp add: licenseTemplate_def ext_flags_def)
  have re9: "map_option fst (main_ext ?sys ?e9 world_license_dir) = Some (Exit 9)"
    using directory_conflict_by_force
            [THEN conjunct2, THEN conjunct2, THEN conjunct1, rule_format,
             OF conjI [OF d9 conjI [OF src9 conjI [OF l9 st9]]]]
    by (auto simp: ext_flags_def)
  obtain v4 u4 v5 u5 where
    src11: "main_ext_source ?sys ?e11 ''/go/src/a/b'' ''b'' world_readme_dir ?t1 = Inr (v4, u4)"
    and lic11: "main_ext_license ?sys ?e11 ''/go/src/a/b'' ''b'' v4 u4 = Inr (v5, u5)"
    and st11: "Stat ?sys (Join [''/go/src/a/b'', ''README.md'']) v5
                 = (Some (FileInfo True), None)"
    by (simp add: main_ext_source_def main_ext_license_def licenseTemplate_def table_simps)
  have d11: "destination_ready ?sys ?e11 world_readme_dir ''/go/src/a/b'' ''b''
               world_readme_dir"
    by (rule destination_ready_a_b) (simp_all add: ext_flags_def)
  have re11: "map_option fst (main_ext ?sys ?e11 world_readme_dir) = Some (Exit 11)"
    using directory_conflict_by_force
            [THEN conjunct2, THEN conjunct2, THEN conjunct2, rule_format,
             OF conjI [OF d11 conjI [OF src11 conjI [OF lic11 st11]]]]
    by (auto simp: ext_flags_def)
  from s r7 r3 re3 re9 re11 show ?thesis by simp
qed

subsection \<open>The license and readme flags\<close>

text \<open>
  Claim C2 says that the license file and the readme file are optional: a run without
  \<^verbatim>\<open>-l\<close> and \<^verbatim>\<open>-r\<close> makes neither and can end well, and the readme file is written
  only with \<^verbatim>\<open>-r\<close>. The code does otherwise. The default of \<^verbatim>\<open>-l\<close> is the empty
  string, which is not a key of the license table, so a run with the default flags ends
  with code 8 after the source file is written; and \<^verbatim>\<open>argReadme\<close> is never read, so
  with \<^verbatim>\<open>-l MIT\<close> and without \<^verbatim>\<open>-r\<close> the readme file is written all the same.
\<close>

theorem default_flags_end_with_unknown_license:
  "argLicense (ext_flags [''a/b'']) = [] \<and> argReadme (ext_flags [''a/b'']) = False \<and>
   map_option (\<lambda>(oc, w, tr). (oc, written_paths tr))
     (main_ext (table_system ''/go'') (ext_flags [''a/b'']) [])
     = Some (Exit 8, [''/go/src/a/b/b.go'']) \<and>
   map_option (\<lambda>(oc, w, tr). (oc, written_paths tr))
     (main_ext (table_system ''/go'') ((ext_flags [''a/b''])\<lparr>argLicense := ''MIT''\<rparr>) [])
     = Some (Returned,
         [''/go/src/a/b/b.go'', ''/go/src/a/b/LICENSE'', ''/go/src/a/b/README.md''])"
  by (simp add: main_ext_defs table_simps)

theorem default_flags_end_with_unknown_license_witness:
  "map_option (\<lambda>(oc, w, tr). exit_code oc)
     (main_ext (table_system ''/go'') (ext_flags [''a/b'']) []) = Some 8"
proof -
  have "map_option (\<lambda>(oc, w, tr). (oc, written_paths tr))
     (main_ext (table_system ''/go'') (ext_flags [''a/b'']) [])
     = Some (Exit 8, [''/go/src/a/b/b.go''])"
    using default_flags_end_with_unknown_license by simp
  then show ?thesis by (auto simp: map_option_case split: option.splits)
qed

subsection \<open>The two tools\<close>

text \<open>
  A command among the events of a run means that the source file was written: the
  destination was ready, the check let the write go ahead and \<^verbatim>\<open>ioutil.WriteFile\<close>
  returned no error; the first two events are the making of the directory and that write.
  The blocks of the license file and of the readme file add no command.
\<close>

lemma write_allowed_fileExists:
  "write_allowed sys fl p w \<Longrightarrow>
   \<exists>exists. fileExists sys p w = Inr (exists, False) \<and> (\<not> exists \<or> argOverwrite fl)"
  by (auto simp: write_allowed_def split: sum.splits)

lemma commands_need_the_write:
  "main sys fl w = Some (oc, w', tr) \<Longrightarrow> EvCommand d c a out e \<in> set tr \<Longrightarrow>
   \<exists>path name w1 w2.
     destination_ready sys fl w path name w1 \<and>
     write_allowed sys fl (Join [path, name @ ''.go'']) w1 \<and>
     WriteFile sys (Join [path, name @ ''.go'']) (source_text fl name) perm_0664 w1 = (None, w2) \<and>
     take 2 tr = [EvMkdirAll path ModePerm None,
                  EvWriteFile (Join [path, name @ ''.go'']) (source_text fl name) perm_0664 None]"
  by (auto simp: main_def Let_def destination_ready_def write_allowed_def source_text_def
      split: if_splits option.splits prod.splits sum.splits)

lemma commands_need_the_write_source:
  "main_ext_source sys fle path name w1 [EvMkdirAll path ModePerm None] = r \<Longrightarrow>
   (case r of Inl (oc, w', tr) \<Rightarrow> tr | Inr (w', tr) \<Rightarrow> tr) = tr \<Longrightarrow>
   EvCommand d c a out e \<in> set tr \<Longrightarrow>
   \<exists>w2.
     write_allowed sys fle (Join [path, name @ ''.go'']) w1 \<and>
     WriteFile sys (Join [path, name @ ''.go'']) (source_text_ext fle name) perm_0664 w1
       = (None, w2) \<and>
     take 2 tr = [EvMkdirAll path ModePerm None,
                  EvWriteFile (Join [path, name @ ''.go'']) (source_text_ext fle name)
                    perm_0664 None]"
  by (auto simp: main_ext_source_def Let_def write_allowed_def source_text_ext_def
      split: if_splits option.splits prod.splits sum.splits)


lemma source_falls_through:
  "main_ext_source sys fle path name w1 t1 = Inr (w4, t4) \<Longrightarrow>
   \<exists>w2 o1 o2.
     write_allowed sys fle (Join [path, name @ ''.go'']) w1 \<and>
     WriteFile sys (Join [path, name @ ''.go'']) (source_text_ext fle name) perm_0664 w1
       = (None, w2) \<and>
     t4 = t1 @
       [EvWriteFile (Join [path, name @ ''.go'']) (source_text_ext fle name) perm_0664 None,
        EvCommand path ''goimports'' [''-w'', name @ ''.go''] o1 None,
        EvCommand path ''go'' [''mod'', ''init''] o2 None]"
  by (auto simp: main_ext_source_def Let_def write_allowed_def source_text_ext_def
      split: if_splits option.splits prod.splits sum.splits)

lemma license_adds_no_command:
  "main_ext_license sys fle path name w t = r \<Longrightarrow>
   \<exists>ex. (case r of Inl (oc, w', tr) \<Rightarrow> tr | Inr (w', tr) \<Rightarrow> tr) = t @ ex \<and>
     (\<forall>d c a out e. EvCommand d c a out e \<notin> set ex)"
  by (auto simp: main_ext_license_def Let_def
      split: if_splits option.splits prod.splits sum.splits)

lemma readme_adds_no_command:
  "main_ext_readme sys fle path name w t = r \<Longrightarrow>
   \<exists>ex. (case r of Inl (oc, w', tr) \<Rightarrow> tr | Inr (w', tr) \<Rightarrow> tr) = t @ ex \<and>
     (\<forall>d c a out e. EvCommand d c a out e \<notin> set ex)"
  by (auto simp: main_ext_readme_def Let_def
      split: if_splits option.splits prod.splits sum.splits)

lemma commands_need_the_write_ext:
  assumes run: "main_ext sys fle w = Some (oc, w', tr)"
    and cmd: "EvCommand d c a out e \<in> set tr"
  shows "\<exists>path name w1 w2.
     destination_ready sys fle w path name w1 \<and>
     write_allowed sys fle (Join [path, name @ ''.go'']) w1 \<and>
     WriteFile sys (Join [path, name @ ''.go'']) (source_text_ext fle name) perm_0664 w1
       = (None, w2) \<and>
     take 2 tr = [EvMkdirAll path ModePerm None,
                  EvWriteFile (Join [path, name @ ''.go'']) (source_text_ext fle name)
                    perm_0664 None]"
proof -
  from run cmd have fl: "\<not> argChangeLog fle" "\<not> argVersion fle" "length (Args fle) \<noteq> 0"
    by (auto simp: main_ext_def split: if_splits)
  with run obtain path name where
    pp: "packagePath (Getenv sys ''GOPATH'' w) (Args fle ! 0) = Some (path, name)"
    by (auto simp: main_ext_def split: option.splits)
  obtain r w1 where mk: "MkdirAll sys path ModePerm w = (r, w1)"
    by (cases "MkdirAll sys path ModePerm w")
  from run cmd fl pp mk have r: "r = None"
    by (cases r) (auto simp: main_ext_def)
  with fl pp mk have dr: "destination_ready sys fle w path name w1"
    by (simp add: destination_ready_def)
  let ?t1 = "[EvMkdirAll path ModePerm None]"
  let ?sp = "Join [path, name @ ''.go'']"
  let ?two = "[EvMkdirAll path ModePerm None,
               EvWriteFile ?sp (source_text_ext fle name) perm_0664 None]"
  have "\<exists>w2. write_allowed sys fle ?sp w1 \<and>
          WriteFile sys ?sp (source_text_ext fle name) perm_0664 w1 = (None, w2) \<and>
          take 2 tr = ?two"
  proof (cases "main_ext_source sys fle path name w1 ?t1")
    case (Inl x)
    with run fl pp mk r have x: "x = (oc, w', tr)" by (simp add: main_ext_def)
    from commands_need_the_write_source [OF Inl [unfolded x] _ cmd] show ?thesis by simp
  next
    case (Inr y)
    obtain w4 t4 where y: "y = (w4, t4)" by (cases y)
    from source_falls_through [OF Inr [unfolded y]] obtain w2 o1 o2 where
      wa: "write_allowed sys fle ?sp w1"
      and wf: "WriteFile sys ?sp (source_text_ext fle name) perm_0664 w1 = (None, w2)"
      and t4: "t4 = ?t1 @
         [EvWriteFile ?sp (source_text_ext fle name) perm_0664 None,
          EvCommand path ''goimports'' [''-w'', name @ ''.go''] o1 None,
          EvCommand path ''go'' [''mod'', ''init''] o2 None]"
      by (elim exE conjE) (rule that, assumption+)
    have "\<exists>ex. tr = t4 @ ex"
    proof (cases "main_ext_license sys fle path name w4 t4")
      case (Inl x)
      with run fl pp mk r Inr y have x: "x = (oc, w', tr)" by (simp add: main_ext_def)
      from license_adds_no_command [OF Inl [unfolded x]] show ?thesis by auto
    next
      case lic: (Inr z)
      obtain w5 t5 where z: "z = (w5, t5)" by (cases z)
      from license_adds_no_command [OF lic [unfolded z]] obtain ex5 where
        t5: "t5 = t4 @ ex5" by auto
      show ?thesis
      proof (cases "main_ext_readme sys fle path name w5 t5")
        case (Inl x)
        with run fl pp mk r Inr y lic z have x: "x = (oc, w', tr)"
          by (simp add: main_ext_def)
        from readme_adds_no_command [OF Inl [unfolded x]] t5 show ?thesis by auto
      next
        case rd: (Inr u)
        obtain w6 t6 where u: "u = (w6, t6)" by (cases u)
        from readme_adds_no_command [OF rd [unfolded u]] obtain ex6 where
          t6: "t6 = t5 @ ex6" by auto
        from run fl pp mk r Inr y lic z rd u
        have "tr = t6 @ [EvPrintf (''mkgo: successfully created %q: %s'' @ newline)
                           [Args fle ! 0, path]]"
          by (simp add: main_ext_def)
        with t6 t5 show ?thesis by simp
      qed
    qed
    then obtain ex where "tr = t4 @ ex" ..
    with t4 have "take 2 tr = ?two" by simp
    with wa wf show ?thesis by blast
  qed
  with dr show ?thesis by blast
qed

text \<open>
  Claim C7. Take a run whose destination is ready and whose check of the source file lets
  the write go ahead. If the write fails, the run ends with code 4 and no tool is started.
  If the write succeeds, the formatting tool runs in the world the write left; if it fails,
  the run ends with code 5 in the world the tool left, the last two events are the failed
  command and the printing of its output, and the module tool is not started. If the
  formatting tool succeeds, the module tool runs next; if it fails, the run ends with code
  6, the last two events are the failed command and the printing of its output. If both
  succeed, the base variant prints the message of success and returns, and the block of the
  source file of the extended variant falls through. In the other direction, a run of
  either variant that ends with a command among its events is such a run: the write of the
  source file returned no error and comes before every command.
\<close>

theorem tools_run_after_the_write:
  fixes fl :: flags and fle :: flags_ext
  shows
  "(destination_ready sys fl w path name w1 \<and>
    write_allowed sys fl (Join [path, name @ ''.go'']) w1 \<longrightarrow>
      (WriteFile sys (Join [path, name @ ''.go'']) (source_text fl name) perm_0664 w1
         = (Some err, w2) \<longrightarrow>
       main sys fl w = Some (Exit 4, w2,
         [EvMkdirAll path ModePerm None,
          EvWriteFile (Join [path, name @ ''.go'']) (source_text fl name) perm_0664 (Some err),
          EvPrintf (''error: %s'' @ newline) [Error err]])) \<and>
      (WriteFile sys (Join [path, name @ ''.go'']) (source_text fl name) perm_0664 w1
         = (None, w2) \<and>
       CombinedOutput sys ''goimports'' [''-w'', name @ ''.go''] path w2
         = ((out, Some err), w3) \<longrightarrow>
       main sys fl w = Some (Exit 5, w3,
         [EvMkdirAll path ModePerm None,
          EvWriteFile (Join [path, name @ ''.go'']) (source_text fl name) perm_0664 None,
          EvCommand path ''goimports'' [''-w'', name @ ''.go''] out (Some err),
          EvPrint out])) \<and>
      (WriteFile sys (Join [path, name @ ''.go'']) (source_text fl name) perm_0664 w1
         = (None, w2) \<and>
       CombinedOutput sys ''goimports'' [''-w'', name @ ''.go''] path w2
         = ((out, None), w3) \<and>
       CombinedOutput sys ''go'' [''mod'', ''init''] path w3 = ((out', Some err), w4) \<longrightarrow>
       main sys fl w = Some (Exit 6, w4,
         [EvMkdirAll path ModePerm None,
          EvWriteFile (Join [path, name @ ''.go'']) (source_text fl name) perm_0664 None,
          EvCommand path ''goimports'' [''-w'', name @ ''.go''] out None,
          EvCommand path ''go'' [''mod'', ''init''] out' (Some err),
          EvPrint out'])) \<and>
      (WriteFile sys (Join [path, name @ ''.go'']) (source_text fl name) perm_0664 w1
         = (None, w2) \<and>
       CombinedOutput sys ''goimports'' [''-w'', name @ ''.go''] path w2
         = ((out, None), w3) \<and>
       CombinedOutput sys ''go'' [''mod'', ''init''] path w3 = ((out', None), w4) \<longrightarrow>
       main sys fl w = Some (Returned, w4,
         [EvMkdirAll path ModePerm None,
          EvWriteFile (Join [path, name @ ''.go'']) (source_text fl name) perm_0664 None,
          EvCommand path ''goimports'' [''-w'', name @ ''.go''] out None,
          EvCommand path ''go'' [''mod'', ''init''] out' None,
          EvPrintf (''mkgo: successfully created %q: %s'' @ newline) [Args fl ! 0, path]]))) \<and>
   (destination_ready sys fle w path name w1 \<and>
    write_allowed sys fle (Join [path, name @ ''.go'']) w1 \<longrightarrow>
      (WriteFile sys (Join [path, name @ ''.go'']) (source_text_ext fle name) perm_0664 w1
         = (Some err, w2) \<longrightarrow>
       main_ext sys fle w = Some (Exit 4, w2,
         [EvMkdirAll path ModePerm None,
          EvWriteFile (Join [path, name @ ''.go'']) (source_text_ext fle name) perm_0664
            (Some err),
          EvPrintf (''error: %s'' @ newline) [Error err]])) \<and>
      (WriteFile sys (Join [path, name @ ''.go'']) (source_text_ext fle name) perm_0664 w1
         = (None, w2) \<and>
       CombinedOutput sys ''goimports'' [''-w'', name @ ''.go''] path w2
         = ((out, Some err), w3) \<longrightarrow>
       main_ext sys fle w = Some (Exit 5, w3,
         [EvMkdirAll path ModePerm None,
          EvWriteFile (Join [path, name @ ''.go'']) (source_text_ext fle name) perm_0664 None,
          EvCommand path ''goimports'' [''-w'', name @ ''.go''] out (Some err),
          EvPrint out])) \<and>
      (WriteFile sys (Join [path, name @ ''.go'']) (source_text_ext fle name) perm_0664 w1
         = (None, w2) \<and>
       CombinedOutput sys ''goimports'' [''-w'', name @ ''.go''] path w2
         = ((out, None), w3) \<and>
       CombinedOutput sys ''go'' [''mod'', ''init''] path w3 = ((out', Some err), w4) \<longrightarrow>
       main_ext sys fle w = Some (Exit 6, w4,
         [EvMkdirAll path ModePerm None,
          EvWriteFile (Join [path, name @ ''.go'']) (source_text_ext fle name) perm_0664 None,
          EvCommand path ''goimports'' [''-w'', name @ ''.go''] out None,
          EvCommand path ''go'' [''mod'', ''init''] out' (Some err),
          EvPrint out'])) \<and>
      (WriteFile sys (Join [path, name @ ''.go'']) (source_text_ext fle name) perm_0664 w1
         = (None, w2) \<and>
       CombinedOutput sys ''goimports'' [''-w'', name @ ''.go''] path w2
         = ((out, None), w3) \<and>
       CombinedOutput sys ''go'' [''mod'', ''init''] path w3 = ((out', None), w4) \<longrightarrow>
       main_ext_source sys fle path name w1 [EvMkdirAll path ModePerm None] = Inr (w4,
         [EvMkdirAll path ModePerm None,
          EvWriteFile (Join [path, name @ ''.go'']) (source_text_ext fle name) perm_0664 None,
          EvCommand path ''goimports'' [''-w'', name @ ''.go''] out None,
          EvCommand path ''go'' [''mod'', ''init''] out' None]))) \<and>
   (main sys fl w = Some (oc, w', tr) \<and> EvCommand d c a out e \<in> set tr \<longrightarrow>
      (\<exists>path name w1 w2.
         destination_ready sys fl w path name w1 \<and>
         write_allowed sys fl (Join [path, name @ ''.go'']) w1 \<and>
         WriteFile sys (Join [path, name @ ''.go'']) (source_text fl name) perm_0664 w1
           = (None, w2) \<and>
         take 2 tr = [EvMkdirAll path ModePerm None,
                      EvWriteFile (Join [path, name @ ''.go'']) (source_text fl name)
                        perm_0664 None])) \<and>
   (main_ext sys fle w = Some (oc, w', tr) \<and> EvCommand d c a out e \<in> set tr \<longrightarrow>
      (\<exists>path name w1 w2.
         destination_ready sys fle w path name w1 \<and>
         write_allowed sys fle (Join [path, name @ ''.go'']) w1 \<and>
         WriteFile sys (Join [path, name @ ''.go'']) (source_text_ext fle name) perm_0664 w1
           = (None, w2) \<and>
         take 2 tr = [EvMkdirAll path ModePerm None,
                      EvWriteFile (Join [path, name @ ''.go'']) (source_text_ext fle name)
                        perm_0664 None]))"
  apply (intro conjI)
  subgoal
    by (auto simp: main_def destination_ready_def write_allowed_def source_text_def
          execCmd_def Let_def split: sum.splits)
  subgoal
    by (auto simp: main_ext_def main_ext_source_def destination_ready_def write_allowed_def
          source_text_ext_def execCmd_def Let_def split: sum.splits)
  subgoal
    by (rule impI, elim conjE, rule commands_need_the_write, assumption+)
  subgoal
    by (rule impI, elim conjE, rule commands_need_the_write_ext, assumption+)
  done

theorem tools_run_after_the_write_witness:
  "main (scripted_system ''/go'' None (Some (OSError OtherError ''exit status 1'')) None)
     (base_flags [''a/b'']) []
     = Some (Exit 5,
         [(''/go/src/a/b/b.go'', File (source_text (base_flags [''a/b'']) ''b'')),
          (''/go/src/a/b'', Dir)],
         [EvMkdirAll ''/go/src/a/b'' ModePerm None,
          EvWriteFile ''/go/src/a/b/b.go'' (source_text (base_flags [''a/b'']) ''b'')
            perm_0664 None,
          EvCommand ''/go/src/a/b'' ''goimports'' [''-w'', ''b.go''] ''goimports output''
            (Some (OSError OtherError ''exit status 1'')),
          EvPrint ''goimports output'']) \<and>
   main (scripted_system ''/go'' None None (Some (OSError OtherError ''exit status 1'')))
     (base_flags [''a/b'']) []
     = Some (Exit 6,
         [(''/go/src/a/b/b.go'', File (source_text (base_flags [''a/b'']) ''b'')),
          (''/go/src/a/b'', Dir)],
         [EvMkdirAll ''/go/src/a/b'' ModePerm None,
          EvWriteFile ''/go/src/a/b/b.go'' (source_text (base_flags [''a/b'']) ''b'')
            perm_0664 None,
          EvCommand ''/go/src/a/b'' ''goimports'' [''-w'', ''b.go''] ''goimports output'' None,
          EvCommand ''/go/src/a/b'' ''go'' [''mod'', ''init''] ''go output''
            (Some (OSError OtherError ''exit status 1'')),
          EvPrint ''go output'']) \<and>
   main (scripted_system ''/go'' (Some (OSError OtherError ''disk full'')) None None)
     (base_flags [''a/b'']) []
     = Some (Exit 4, [(''/go/src/a/b'', Dir)],
         [EvMkdirAll ''/go/src/a/b'' ModePerm None,
          EvWriteFile ''/go/src/a/b/b.go'' (source_text (base_flags [''a/b'']) ''b'')
            perm_0664 (Some (OSError OtherError ''disk full'')),
          EvPrintf (''error: %s'' @ newline) [''disk full'']]) \<and>
   main_ext (scripted_system ''/go'' None (Some (OSError OtherError ''exit status 1'')) None)
     (ext_flags [''a/b'']) []
     = Some (Exit 5,
         [(''/go/src/a/b/b.go'', File (source_text_ext (ext_flags [''a/b'']) ''b'')),
          (''/go/src/a/b'', Dir)],
         [EvMkdirAll ''/go/src/a/b'' ModePerm None,
          EvWriteFile ''/go/src/a/b/b.go'' (source_text_ext (ext_flags [''a/b'']) ''b'')
            perm_0664 None,
          EvCommand ''/go/src/a/b'' ''goimports'' [''-w'', ''b.go''] ''goimports output''
            (Some (OSError OtherError ''exit status 1'')),
          EvPrint ''goimports output'']) \<and>
   (\<exists>w2. WriteFile
           (scripted_system ''/go'' None (Some (OSError OtherError ''exit status 1'')) None)
           ''/go/src/a/b/b.go'' (source_text (base_flags [''a/b'']) ''b'') perm_0664
           [(''/go/src/a/b'', Dir)] = (None, w2))"
proof -
  let ?E = "OSError OtherError ''exit status 1''"
  let ?D = "OSError OtherError ''disk full''"
  let ?f = "base_flags [''a/b'']"
  let ?fe = "ext_flags [''a/b'']"
  let ?W1 = "[(''/go/src/a/b'', Dir)] :: world"
  let ?W2 = "[(''/go/src/a/b/b.go'', File (source_text ?f ''b'')), (''/go/src/a/b'', Dir)]"
  let ?W2e = "[(''/go/src/a/b/b.go'', File (source_text_ext ?fe ''b'')), (''/go/src/a/b'', Dir)]"
  have dr: "destination_ready (scripted_system ''/go'' werr ferr merr) ?f []
              ''/go/src/a/b'' ''b'' ?W1"
    "destination_ready (scripted_system ''/go'' werr ferr merr) ?fe []
              ''/go/src/a/b'' ''b'' ?W1" for werr ferr merr
    by (simp_all add: destination_ready_def scripted_system_def table_simps)
  have wa: "write_allowed (scripted_system ''/go'' werr ferr merr) ?f
              (Join [''/go/src/a/b'', ''b'' @ ''.go'']) ?W1"
    "write_allowed (scripted_system ''/go'' werr ferr merr) ?fe
              (Join [''/go/src/a/b'', ''b'' @ ''.go'']) ?W1" for werr ferr merr
    by (simp_all add: write_allowed_def scripted_system_def table_simps)
  have wr: "WriteFile (scripted_system ''/go'' None ferr merr)
              (Join [''/go/src/a/b'', ''b'' @ ''.go'']) c perm_0664 ?W1
              = (None, (''/go/src/a/b/b.go'', File c) # ?W1)" for ferr merr c
    by (simp add: scripted_system_def table_simps)
  have wf: "WriteFile (scripted_system ''/go'' (Some ?D) None None)
              (Join [''/go/src/a/b'', ''b'' @ ''.go'']) c perm_0664 ?W1 = (Some ?D, ?W1)" for c
    by (simp add: scripted_system_def table_simps)
  have co: "CombinedOutput (scripted_system ''/go'' werr ferr merr) ''goimports'' ar dir v
              = ((''goimports output'', ferr), v)"
    "CombinedOutput (scripted_system ''/go'' werr ferr merr) ''go'' ar dir v
              = ((''go output'', merr), v)" for werr ferr merr ar dir v
    by (simp_all add: scripted_system_def table_simps)
  note T = tools_run_after_the_write
  have r5: "main (scripted_system ''/go'' None (Some ?E) None) ?f [] = Some (Exit 5, ?W2,
         [EvMkdirAll ''/go/src/a/b'' ModePerm None,
          EvWriteFile ''/go/src/a/b/b.go'' (source_text ?f ''b'') perm_0664 None,
          EvCommand ''/go/src/a/b'' ''goimports'' [''-w'', ''b.go''] ''goimports output''
            (Some ?E),
          EvPrint ''goimports output''])"
    using T [THEN conjunct1, rule_format, OF conjI [OF dr(1) wa(1)],
             THEN conjunct2, THEN conjunct1, rule_format, OF conjI [OF wr co(1)]]
    by (simp add: Join_source_a_b)
  have r6: "main (scripted_system ''/go'' None None (Some ?E)) ?f [] = Some (Exit 6, ?W2,
         [EvMkdirAll ''/go/src/a/b'' ModePerm None,
          EvWriteFile ''/go/src/a/b/b.go'' (source_text ?f ''b'') perm_0664 None,
          EvCommand ''/go/src/a/b'' ''goimports'' [''-w'', ''b.go''] ''goimports output'' None,
          EvCommand ''/go/src/a/b'' ''go'' [''mod'', ''init''] ''go output'' (Some ?E),
          EvPrint ''go output''])"
    using T [THEN conjunct1, rule_format, OF conjI [OF dr(1) wa(1)],
             THEN conjunct2, THEN conjunct2, THEN conjunct1, rule_format,
             OF conjI [OF wr conjI [OF co(1) co(2)]]]
    by (simp add: Join_source_a_b)
  have r4: "main (scripted_system ''/go'' (Some ?D) None None) ?f [] = Some (Exit 4, ?W1,
         [EvMkdirAll ''/go/src/a/b'' ModePerm None,
          EvWriteFile ''/go/src/a/b/b.go'' (source_text ?f ''b'') perm_0664 (Some ?D),
          EvPrintf (''error: %s'' @ newline) [''disk full'']])"
    using T [THEN conjunct1, rule_format, OF conjI [OF dr(1) wa(1)],
             THEN conjunct1, rule_format, OF wf]
    by (simp add: Join_source_a_b)
  have e5: "main_ext (scripted_system ''/go'' None (Some ?E) None) ?fe [] = Some (Exit 5, ?W2e,
         [EvMkdirAll ''/go/src/a/b'' ModePerm None,
          EvWriteFile ''/go/src/a/b/b.go'' (source_text_ext ?fe ''b'') perm_0664 None,
          EvCommand ''/go/src/a/b'' ''goimports'' [''-w'', ''b.go''] ''goimports output''
            (Some ?E),
          EvPrint ''goimports output''])"
    using T [THEN conjunct2, THEN conjunct1, rule_format, OF conjI [OF dr(2) wa(2)],
             THEN conjunct2, THEN conjunct1, rule_format, OF conjI [OF wr co(1)]]
    by (simp add: Join_source_a_b)
  have "EvCommand ''/go/src/a/b'' ''goimports'' [''-w'', ''b.go''] ''goimports output''
          (Some ?E)
        \<in> set [EvMkdirAll ''/go/src/a/b'' ModePerm None,
          EvWriteFile ''/go/src/a/b/b.go'' (source_text ?f ''b'') perm_0664 None,
          EvCommand ''/go/src/a/b'' ''goimports'' [''-w'', ''b.go''] ''goimports output''
            (Some ?E),
          EvPrint ''goimports output'']"
    by simp
  from T [THEN conjunct2, THEN conjunct2, THEN conjunct1, rule_format, OF conjI [OF r5 this]]
  obtain path name w1 w2 where
    d: "destination_ready (scripted_system ''/go'' None (Some ?E) None) ?f [] path name w1"
    and w: "WriteFile (scripted_system ''/go'' None (Some ?E) None)
              (Join [path, name @ ''.go'']) (source_text ?f name) perm_0664 w1 = (None, w2)"
    by blast
  from d have "path = ''/go/src/a/b''" "name = ''b''" "w1 = ?W1"
    by (auto simp: destination_ready_def scripted_system_def table_simps)
  with w have "WriteFile (scripted_system ''/go'' None (Some ?E) None)
      ''/go/src/a/b/b.go'' (source_text ?f ''b'') perm_0664 ?W1 = (None, w2)"
    by (simp add: Join_source_a_b)
  then have "\<exists>w2. WriteFile (scripted_system ''/go'' None (Some ?E) None)
      ''/go/src/a/b/b.go'' (source_text ?f ''b'') perm_0664 ?W1 = (None, w2)" ..
  with r5 r6 r4 e5 show ?thesis by simp
qed

subsection \<open>Rooted paths\<close>

lemma rooted_Split:
  "rooted p \<Longrightarrow> fst (Split p) \<noteq> [] \<and> rooted (fst (Split p))"
proof -
  assume r: "rooted p"
  then obtain q where p: "p = CHR ''/'' # q" by (cases p) (auto simp: rooted_def)
  have "dropWhile (\<lambda>c. c \<noteq> CHR ''/'') (rev q @ ''/'') = dropWhile (\<lambda>c. c \<noteq> CHR ''/'') (rev q) @ ''/'' \<or>
        dropWhile (\<lambda>c. c \<noteq> CHR ''/'') (rev q @ ''/'') = ''/''"
    by (induction "rev q" arbitrary: q) (auto simp: dropWhile_append)
  then show ?thesis
    by (auto simp: Split_def p rooted_def dropWhile_append)
qed

lemma rooted_Clean: "rooted d \<Longrightarrow> rooted (Clean d)"
  by (simp add: Clean_def rooted_def)

lemma splitPath_loop_rooted_step:
  assumes IH: "\<And>a b y. f a b = Some y \<Longrightarrow> \<not> rooted a"
    and eq: "(if 0 < length path
      then case Split path of
           (d, fl) \<Rightarrow>
             let part' = if 0 < length fl then part @ [fl] else part
             in if 0 < length d then f (Clean d) part' else Some part'
      else Some part) = Some y"
  shows "\<not> rooted path"
proof
  assume r: "rooted path"
  then have ne: "path \<noteq> []" by (simp add: rooted_def)
  obtain d fl where s: "Split path = (d, fl)" by (cases "Split path")
  with rooted_Split [OF r] have d: "d \<noteq> []" "rooted d" by simp_all
  from eq ne s d obtain part' where "f (Clean d) part' = Some y"
    by (auto simp: Let_def)
  from IH [OF this] rooted_Clean [OF d(2)] show False by simp
qed

lemma splitPath_loop_rooted:
  assumes "splitPath_loop p acc = Some y"
  shows "\<not> rooted p"
  by (rule splitPath_loop.raw_induct [where P = "\<lambda>a b c. \<not> rooted a",
        OF splitPath_loop_rooted_step assms])

lemma splitPath_rooted: "rooted p \<Longrightarrow> splitPath p = None"
  using splitPath_loop_rooted [of p "[]"]
  by (cases "splitPath_loop p []") (auto simp: splitPath_def)

subsection \<open>Splitting and joining at a separator\<close>

lemma strings_Split_not_Nil [simp]: "strings_Split s c \<noteq> []"
  by (induction s) (auto split: list.splits)

lemma strings_Split_no_sep: "x \<in> set (strings_Split s c) \<Longrightarrow> c \<notin> set x"
proof (induction s arbitrary: x)
  case Nil
  then show ?case by simp
next
  case (Cons a s)
  show ?case
  proof (cases "a = c")
    case True
    with Cons show ?thesis by auto
  next
    case False
    from strings_Split_not_Nil [of s c] obtain y ys where ys: "strings_Split s c = y # ys"
      by (cases "strings_Split s c") auto
    with Cons False show ?thesis by auto
  qed
qed

lemma strings_Split_append_sep:
  "strings_Split (a @ c # b) c = strings_Split a c @ strings_Split b c"
proof (induction a)
  case Nil
  then show ?case by simp
next
  case (Cons x a)
  from strings_Split_not_Nil [of a c] obtain y ys where "strings_Split a c = y # ys"
    by (cases "strings_Split a c") auto
  with Cons show ?case by auto
qed

lemma strings_Split_no_sep_id: "c \<notin> set s \<Longrightarrow> strings_Split s c = [s]"
  by (induction s) auto

lemma strings_Join_snoc:
  "xs \<noteq> [] \<Longrightarrow> strings_Join (xs @ [x]) sep = strings_Join xs sep @ sep @ x"
  by (induction xs sep rule: strings_Join.induct) auto

lemma strings_Join_Cons:
  "xs \<noteq> [] \<Longrightarrow> strings_Join (x # xs) sep = x @ sep @ strings_Join xs sep"
  by (cases xs) auto

lemma strings_Split_Join:
  "xs \<noteq> [] \<Longrightarrow> \<forall>x \<in> set xs. c \<notin> set x \<Longrightarrow> strings_Split (strings_Join xs [c]) c = xs"
proof (induction xs rule: rev_induct)
  case Nil
  then show ?case by simp
next
  case (snoc x xs)
  show ?case
  proof (cases "xs = []")
    case True
    with snoc.prems show ?thesis by (simp add: strings_Split_no_sep_id)
  next
    case False
    with snoc show ?thesis
      by (simp add: strings_Join_snoc strings_Split_append_sep strings_Split_no_sep_id)
  qed
qed

subsection \<open>filepath.Split\<close>

lemma Split_no_slash: "CHR ''/'' \<notin> set p \<Longrightarrow> Split p = ([], p)"
proof -
  assume "CHR ''/'' \<notin> set p"
  then have "\<forall>c \<in> set (rev p). c \<noteq> CHR ''/''" by auto
  then show ?thesis
    by (simp add: Split_def takeWhile_eq_all_conv [THEN iffD2] dropWhile_eq_Nil_conv [THEN iffD2])
qed

lemma takeWhile_dropWhile_sep:
  "c \<notin> set xs \<Longrightarrow>
   takeWhile (\<lambda>x. x \<noteq> c) (xs @ c # ys) = xs \<and> dropWhile (\<lambda>x. x \<noteq> c) (xs @ c # ys) = c # ys"
  by (induction xs) auto

lemma Split_dir_file:
  "CHR ''/'' \<notin> set f \<Longrightarrow> Split (d @ CHR ''/'' # f) = (d @ ''/'', f)"
  using takeWhile_dropWhile_sep [of "CHR ''/''" "rev f" "rev d"]
  by (simp add: Split_def)

subsection \<open>The reversing loop\<close>

lemma length_reverse_loop: "length (reverse_loop i n ys) = length ys"
proof (induction i n ys rule: reverse_loop.induct)
  case (1 i n part)
  then show ?case by (subst reverse_loop.simps) simp
qed

lemma nth_reverse_loop:
  "length ys = n \<Longrightarrow> k < n \<Longrightarrow>
   reverse_loop i n ys ! k = (if k < i \<or> n - i \<le> k then ys ! k else ys ! (n - 1 - k))"
proof (induction i n ys rule: reverse_loop.induct)
  case (1 i n part)
  show ?case
  proof (cases "i < n div 2")
    case False
    have "\<not> k < i \<and> \<not> n - i \<le> k \<Longrightarrow> n - 1 - k = k"
      using False "1.prems" by arith
    with False show ?thesis by (subst reverse_loop.simps) auto
  next
    case True
    let ?p = "part[i := part ! (n - i - 1), n - i - 1 := part ! i]"
    have len: "length ?p = n" using "1.prems" by simp
    have step: "reverse_loop i n part = reverse_loop (i + 1) n ?p"
      using True by (subst reverse_loop.simps) simp
    from "1.IH" [OF True len "1.prems"(2)]
    have IH: "reverse_loop (i + 1) n ?p ! k =
      (if k < i + 1 \<or> n - (i + 1) \<le> k then ?p ! k else ?p ! (n - 1 - k))" .
    have i: "i < n - i - 1" "n - i - 1 < n" "i < n" using True by arith+
    show ?thesis
      unfolding step IH using i "1.prems"
      by (auto simp: nth_list_update)
  qed
qed

lemma reverse_loop_rev: "reverse_loop 0 (length xs) xs = rev xs"
  by (rule nth_equalityI)
     (simp_all add: length_reverse_loop nth_reverse_loop rev_nth)

subsection \<open>The stack of filepath.Clean\<close>

lemma clean_step_elems:
  "x \<in> set (clean_step r st e) \<Longrightarrow> x \<in> set st \<or> (x = e \<and> e \<noteq> [] \<and> e \<noteq> ''.'')"
  by (auto simp: clean_step_def dest: in_set_butlastD split: if_splits)

lemma foldl_clean_step_elems:
  "x \<in> set (foldl (clean_step r) st es) \<Longrightarrow>
   x \<in> set st \<or> (x \<in> set es \<and> x \<noteq> [] \<and> x \<noteq> ''.'')"
proof (induction es arbitrary: st)
  case Nil
  then show ?case by simp
next
  case (Cons e es)
  from Cons.prems have "x \<in> set (foldl (clean_step r) (clean_step r st e) es)" by simp
  from Cons.IH [OF this] show ?case
    by (auto dest: clean_step_elems)
qed

lemma length_clean_step: "length (clean_step r st e) \<le> Suc (length st)"
  by (auto simp: clean_step_def)

lemma length_foldl_clean_step: "length (foldl (clean_step r) st es) \<le> length st + length es"
proof (induction es arbitrary: st)
  case Nil
  then show ?case by simp
next
  case (Cons e es)
  from Cons.IH [of "clean_step r st e"] length_clean_step [of r st e]
  show ?case by simp
qed

text \<open>Cleaning relative elements first does not change what a later cleaning keeps.\<close>

lemma foldl_clean_step_relative_step:
  assumes "\<forall>x \<in> set N. x \<noteq> [] \<and> x \<noteq> ''.''"
  shows "foldl (clean_step r) S (clean_step False N c) = clean_step r (foldl (clean_step r) S N) c"
proof (cases "c = ''..'' \<and> N \<noteq> [] \<and> last N \<noteq> ''..''")
  case False
  then show ?thesis by (auto simp: clean_step_def)
next
  case True
  then obtain M n where N: "N = M @ [n]" and n: "n \<noteq> ''..''"
    by (cases N rule: rev_cases) auto
  from assms N have "n \<noteq> []" "n \<noteq> ''.''" by auto
  with True N n show ?thesis by (simp add: clean_step_def)
qed

lemma foldl_clean_step_relative:
  "foldl (clean_step r) S (foldl (clean_step False) [] cs) = foldl (clean_step r) S cs"
proof (induction cs rule: rev_induct)
  case Nil
  then show ?case by simp
next
  case (snoc c cs)
  have "\<forall>x \<in> set (foldl (clean_step False) [] cs). x \<noteq> [] \<and> x \<noteq> ''.''"
    by (auto dest: foldl_clean_step_elems)
  from foldl_clean_step_relative_step [OF this] snoc show ?case by simp
qed

text \<open>A stack is clean when cleaning it as a relative path gives it back.\<close>

lemma clean_butlast:
  assumes "foldl (clean_step False) [] N = N"
  shows "foldl (clean_step False) [] (butlast N) = butlast N"
proof (cases N rule: rev_cases)
  case Nil
  then show ?thesis by simp
next
  case (snoc M x)
  let ?M = "foldl (clean_step False) [] M"
  from assms snoc have eq: "clean_step False ?M x = M @ [x]" by simp
  have len: "length ?M \<le> length M" using length_foldl_clean_step [of False "[]" M] by simp
  have x: "x \<noteq> []" "x \<noteq> ''.''"
    using foldl_clean_step_elems [of x False "[]" N] assms snoc by auto
  have "?M = M"
  proof (cases "x = ''..'' \<and> ?M \<noteq> [] \<and> last ?M \<noteq> ''..''")
    case True
    with eq have "butlast ?M = M @ [x]" by (simp add: clean_step_def)
    then have "length ?M - 1 = length M + 1" by (metis length_butlast length_append_singleton Suc_eq_plus1)
    with len show ?thesis by simp
  next
    case False
    with eq x have "?M @ [x] = M @ [x]" by (auto simp: clean_step_def split: if_splits)
    then show ?thesis by simp
  qed
  with snoc show ?thesis by simp
qed

subsection \<open>filepath.Clean on relative paths\<close>

lemma Clean_relative:
  "\<not> rooted p \<Longrightarrow>
   Clean p = (if foldl (clean_step False) [] (strings_Split p CHR ''/'') = [] then ''.''
              else strings_Join (foldl (clean_step False) [] (strings_Split p CHR ''/'')) ''/'')"
  by (simp add: Clean_def Let_def)

lemma hd_strings_Join:
  "N \<noteq> [] \<Longrightarrow> hd N \<noteq> [] \<Longrightarrow> hd (strings_Join N sep @ s) = hd (hd N)"
  by (induction N sep rule: strings_Join.induct) auto

lemma strings_Join_not_Nil:
  "N \<noteq> [] \<Longrightarrow> hd N \<noteq> [] \<Longrightarrow> strings_Join N sep \<noteq> []"
  by (induction N sep rule: strings_Join.induct) auto

lemma not_rooted_strings_Join:
  "N \<noteq> [] \<Longrightarrow> hd N \<noteq> [] \<Longrightarrow> CHR ''/'' \<notin> set (hd N) \<Longrightarrow>
   \<not> rooted (strings_Join N ''/'' @ s)"
proof -
  assume a: "N \<noteq> []" "hd N \<noteq> []" "CHR ''/'' \<notin> set (hd N)"
  then have "hd (hd N) \<noteq> CHR ''/''" by (metis hd_in_set)
  with a show ?thesis by (simp add: rooted_def hd_strings_Join)
qed

lemma clean_elems:
  "foldl (clean_step False) [] N = N \<Longrightarrow> x \<in> set N \<Longrightarrow> x \<noteq> [] \<and> x \<noteq> ''.''"
  using foldl_clean_step_elems [of x False "[]" N] by auto

lemma Clean_dir:
  assumes ne: "N \<noteq> []" and cl: "foldl (clean_step False) [] N = N"
    and sf: "\<forall>x \<in> set N. CHR ''/'' \<notin> set x"
  shows "Clean (strings_Join N ''/'' @ ''/'') = strings_Join N ''/''"
proof -
  from ne have h: "hd N \<in> set N" by simp
  with clean_elems [OF cl] sf have hd: "hd N \<noteq> []" "CHR ''/'' \<notin> set (hd N)" by auto
  have nr: "\<not> rooted (strings_Join N ''/'' @ ''/'')"
    by (rule not_rooted_strings_Join [OF ne hd])
  have "strings_Split (strings_Join N ''/'' @ ''/'') CHR ''/'' = N @ [[]]"
    using strings_Split_append_sep [of "strings_Join N ''/''" "CHR ''/''" "[]"]
      strings_Split_Join [OF ne sf] by simp
  with cl ne show ?thesis
    by (simp add: Clean_relative [OF nr] clean_step_def)
qed

subsection \<open>The first loop of splitPath on a clean relative path\<close>

lemma splitPath_loop_file:
  "CHR ''/'' \<notin> set p \<Longrightarrow> p \<noteq> [] \<Longrightarrow> splitPath_loop p acc = Some (acc @ [p])"
  by (subst splitPath_loop.simps) (simp add: Split_no_slash)

lemma splitPath_loop_dir:
  "CHR ''/'' \<notin> set f \<Longrightarrow>
   splitPath_loop (d @ CHR ''/'' # f) acc
     = splitPath_loop (Clean (d @ ''/'')) (if f = [] then acc else acc @ [f])"
  by (subst splitPath_loop.simps) (simp add: Split_dir_file)

lemma splitPath_loop_clean:
  assumes "foldl (clean_step False) [] N = N" and "\<forall>x \<in> set N. CHR ''/'' \<notin> set x"
  shows "splitPath_loop (if N = [] then ''.'' else strings_Join N ''/'') acc
     = Some (acc @ rev (if N = [] then [''.''] else N))"
  using assms
proof (induction N arbitrary: acc rule: rev_induct)
  case Nil
  show ?case using splitPath_loop_file [of "''.''" acc] by simp
next
  case (snoc x M)
  from snoc.prems have x: "x \<noteq> []" "CHR ''/'' \<notin> set x"
    using clean_elems [OF snoc.prems(1), of x] by auto
  show ?case
  proof (cases "M = []")
    case True
    with x show ?thesis by (simp add: splitPath_loop_file)
  next
    case False
    from clean_butlast [OF snoc.prems(1)] have clM: "foldl (clean_step False) [] M = M"
      by simp
    from snoc.prems have sfM: "\<forall>x \<in> set M. CHR ''/'' \<notin> set x" by simp
    have j: "strings_Join (M @ [x]) ''/'' = strings_Join M ''/'' @ CHR ''/'' # x"
      using False by (simp add: strings_Join_snoc)
    have "splitPath_loop (strings_Join (M @ [x]) ''/'') acc
        = splitPath_loop (Clean (strings_Join M ''/'' @ ''/'')) (acc @ [x])"
      unfolding j using x by (simp add: splitPath_loop_dir)
    also have "\<dots> = splitPath_loop (strings_Join M ''/'') (acc @ [x])"
      by (simp add: Clean_dir [OF False clM sfM])
    also have "\<dots> = Some ((acc @ [x]) @ rev M)"
      using snoc.IH [OF clM sfM, of "acc @ [x]"] False by simp
    finally show ?thesis by simp
  qed
qed

subsection \<open>splitPath on relative paths\<close>

lemma splitPath_rev: "splitPath p = map_option rev (splitPath_loop p [])"
  by (cases "splitPath_loop p []") (simp_all only: splitPath_def option.case option.map
      reverse_loop_rev)

lemma splitPath_no_slash:
  "CHR ''/'' \<notin> set p \<Longrightarrow> splitPath p = Some (if p = [] then [] else [p])"
proof (cases "p = []")
  case True
  have "splitPath_loop [] [] = Some []" by (subst splitPath_loop.simps) simp
  with True show ?thesis by (simp add: splitPath_rev)
next
  case False
  assume "CHR ''/'' \<notin> set p"
  with False show ?thesis
    by (simp add: splitPath_rev splitPath_loop_file)
qed

lemma clean_stack_of_Split:
  "foldl (clean_step False) [] (foldl (clean_step False) [] (strings_Split d c))
     = foldl (clean_step False) [] (strings_Split d c) \<and>
   (\<forall>x \<in> set (foldl (clean_step False) [] (strings_Split d c)). c \<notin> set x)"
  using foldl_clean_step_relative [of False "[]" "strings_Split d c"]
  by (auto dest: foldl_clean_step_elems strings_Split_no_sep)

lemma Clean_dir_relative:
  assumes "\<not> rooted (d @ ''/'')"
  shows "Clean (d @ ''/'') =
    (if foldl (clean_step False) [] (strings_Split d CHR ''/'') = [] then ''.''
     else strings_Join (foldl (clean_step False) [] (strings_Split d CHR ''/'')) ''/'')"
proof -
  have "strings_Split (d @ ''/'') CHR ''/'' = strings_Split d CHR ''/'' @ [[]]"
    using strings_Split_append_sep [of d "CHR ''/''" "[]"] by simp
  then show ?thesis
    by (simp add: Clean_relative [OF assms] clean_step_def)
qed

lemma splitPath_dir_file:
  assumes nr: "\<not> rooted (d @ CHR ''/'' # f)" and f: "CHR ''/'' \<notin> set f"
  shows "splitPath (d @ CHR ''/'' # f) =
    Some ((if foldl (clean_step False) [] (strings_Split d CHR ''/'') = [] then [''.'']
           else foldl (clean_step False) [] (strings_Split d CHR ''/''))
          @ (if f = [] then [] else [f]))"
proof -
  let ?N = "foldl (clean_step False) [] (strings_Split d CHR ''/'')"
  from nr have nrd: "\<not> rooted (d @ ''/'')" by (cases d) (auto simp: rooted_def)
  from clean_stack_of_Split [of d "CHR ''/''"]
  have cl: "foldl (clean_step False) [] ?N = ?N" and sf: "\<forall>x \<in> set ?N. CHR ''/'' \<notin> set x"
    by simp_all
  have "splitPath_loop (d @ CHR ''/'' # f) []
      = splitPath_loop (if ?N = [] then ''.'' else strings_Join ?N ''/'')
          (if f = [] then [] else [f])"
    using splitPath_loop_dir [OF f, of d "[]"] Clean_dir_relative [OF nrd] by simp
  also have "\<dots> = Some ((if f = [] then [] else [f]) @ rev (if ?N = [] then [''.''] else ?N))"
    by (rule splitPath_loop_clean [OF cl sf])
  finally show ?thesis
    by (simp add: splitPath_rev)
qed

lemma splitPath_relative_returns:
  assumes "\<not> rooted p"
  shows "\<exists>part. splitPath p = Some part"
proof (cases "CHR ''/'' \<in> set p")
  case False
  then show ?thesis by (simp add: splitPath_no_slash)
next
  case True
  from split_list_last [OF this] obtain d f where
    p: "p = d @ CHR ''/'' # f" and f: "CHR ''/'' \<notin> set f" by blast
  from splitPath_dir_file [OF assms [unfolded p] f] p show ?thesis by simp
qed

subsection \<open>Joining what splitPath returns\<close>

lemma Join_hd_not_Nil:
  "part \<noteq> [] \<Longrightarrow> hd part \<noteq> [] \<Longrightarrow> Join part = Clean (strings_Join part ''/'')"
  by (cases part) (simp_all add: Join_def)

lemma Join_splitPath_no_slash:
  "CHR ''/'' \<notin> set p \<Longrightarrow> p \<noteq> [] \<Longrightarrow> splitPath p = Some [p] \<and> Join [p] = Clean p"
  by (simp add: splitPath_no_slash Join_def)

lemma Join_splitPath_dir_file:
  assumes nr: "\<not> rooted (d @ CHR ''/'' # f)" and f: "CHR ''/'' \<notin> set f"
  shows "\<exists>part. splitPath (d @ CHR ''/'' # f) = Some part \<and>
     Join part = Clean (d @ CHR ''/'' # f) \<and> part \<noteq> [] \<and> (f \<noteq> [] \<longrightarrow> last part = f)"
proof -
  let ?N = "foldl (clean_step False) [] (strings_Split d CHR ''/'')"
  let ?N' = "if ?N = [] then [''.''] else ?N"
  let ?fs = "if f = [] then [] else [f]"
  let ?part = "?N' @ ?fs"
  from clean_stack_of_Split [of d "CHR ''/''"]
  have cl: "foldl (clean_step False) [] ?N = ?N" and sf: "\<forall>x \<in> set ?N. CHR ''/'' \<notin> set x"
    by simp_all
  have sp: "splitPath (d @ CHR ''/'' # f) = Some ?part"
    by (rule splitPath_dir_file [OF nr f])
  have ne: "?part \<noteq> []" by simp
  have elems: "\<forall>x \<in> set ?part. x \<noteq> [] \<and> CHR ''/'' \<notin> set x"
    using sf f clean_elems [OF cl] by auto
  from ne have "hd ?part \<in> set ?part" by (rule hd_in_set)
  with elems have hd: "hd ?part \<noteq> []" "CHR ''/'' \<notin> set (hd ?part)" by blast+
  have nrp: "\<not> rooted (strings_Join ?part ''/'')"
    using not_rooted_strings_Join [OF ne hd, of "[]"] by simp
  from elems have sfp: "\<forall>x \<in> set ?part. CHR ''/'' \<notin> set x" by blast
  have split: "strings_Split (strings_Join ?part ''/'') CHR ''/'' = ?part"
    by (rule strings_Split_Join [OF ne sfp])
  have N': "foldl (clean_step False) [] ?N' = ?N"
    using cl by (simp add: clean_step_def)
  have fs: "foldl (clean_step False) ?N ?fs = clean_step False ?N f"
    by (simp add: clean_step_def)
  have st: "foldl (clean_step False) [] ?part = clean_step False ?N f"
    using N' fs by (simp only: foldl_append)
  have "strings_Split (d @ CHR ''/'' # f) CHR ''/'' = strings_Split d CHR ''/'' @ [f]"
    using f by (simp add: strings_Split_append_sep strings_Split_no_sep_id)
  then have "Clean (d @ CHR ''/'' # f) =
      (if clean_step False ?N f = [] then ''.''
       else strings_Join (clean_step False ?N f) ''/'')"
    by (simp add: Clean_relative [OF nr])
  moreover have "Join ?part =
      (if clean_step False ?N f = [] then ''.''
       else strings_Join (clean_step False ?N f) ''/'')"
    unfolding Join_hd_not_Nil [OF ne hd(1)] Clean_relative [OF nrp] split st ..
  ultimately have "Join ?part = Clean (d @ CHR ''/'' # f)" by simp
  with sp ne show ?thesis by (intro exI [of _ ?part]) simp
qed

lemma rooted_append_sep: "a \<noteq> [] \<Longrightarrow> rooted (a @ CHR ''/'' # x) = rooted a"
  by (cases a) (simp_all add: rooted_def)

lemma Clean_append_Clean:
  assumes a: "a \<noteq> []" and nr: "\<not> rooted q"
  shows "Clean (a @ CHR ''/'' # Clean q) = Clean (a @ CHR ''/'' # q)"
proof -
  let ?N = "foldl (clean_step False) [] (strings_Split q CHR ''/'')"
  let ?S = "foldl (clean_step (rooted a)) [] (strings_Split a CHR ''/'')"
  from clean_stack_of_Split [of q "CHR ''/''"]
  have sf: "\<forall>x \<in> set ?N. CHR ''/'' \<notin> set x" by simp
  have "foldl (clean_step (rooted a)) ?S (strings_Split (Clean q) CHR ''/'')
      = foldl (clean_step (rooted a)) ?S ?N"
  proof (cases "?N = []")
    case True
    then show ?thesis by (simp add: Clean_relative [OF nr] clean_step_def)
  next
    case False
    with strings_Split_Join [OF False sf] show ?thesis
      by (simp add: Clean_relative [OF nr])
  qed
  also have "\<dots> = foldl (clean_step (rooted a)) ?S (strings_Split q CHR ''/'')"
    by (rule foldl_clean_step_relative)
  finally show ?thesis
    by (simp add: Clean_def rooted_append_sep [OF a] strings_Split_append_sep)
qed

subsection \<open>packagePath\<close>

lemma SplitList_not_Nil: "G \<noteq> [] \<Longrightarrow> SplitList G \<noteq> []"
  by (simp add: SplitList_def)

lemma Join_src_Clean:
  assumes "\<not> rooted p"
  shows "Join [g, ''src'', Clean p] = Join [g, ''src'', p]"
proof (cases "g = []")
  case True
  with Clean_append_Clean [of "''src''" p] assms show ?thesis by (simp add: Join_def)
next
  case False
  with Clean_append_Clean [of "g @ ''/src''" p] assms show ?thesis by (simp add: Join_def)
qed

lemma Join_src_components:
  "cs \<noteq> [] \<Longrightarrow> Join [g, ''src'', strings_Join cs ''/''] = Join ([g, ''src''] @ cs)"
  by (simp add: Join_def strings_Join_Cons)

lemma packagePath_of_parts:
  assumes sp: "splitPath p = Some part" and j: "Join part = Clean p" and ne: "part \<noteq> []"
    and nr: "\<not> rooted p" and G: "G \<noteq> []"
  shows "packagePath G p = Some (Join [hd (SplitList G), ''src'', p], last part)"
  using SplitList_not_Nil [OF G] ne
  by (simp add: packagePath_def sp j Join_src_Clean [OF nr] hd_conv_nth last_conv_nth)

lemma foldl_clean_step_names:
  "\<forall>c \<in> set cs. c \<noteq> [] \<and> c \<noteq> ''.'' \<and> c \<noteq> ''..'' \<Longrightarrow>
   foldl (clean_step r) st cs = st @ cs"
  by (induction cs arbitrary: st) (simp_all add: clean_step_def)

subsection \<open>splitPath on rooted paths\<close>

text \<open>
  Claim C9 says that \<^verbatim>\<open>splitPath\<close> ends on every input, rooted paths and the bare root
  included. The code does otherwise: on a path that starts with a slash the directory part
  is never empty (at the root, \<^verbatim>\<open>filepath.Split\<close> returns the root itself and
  \<^verbatim>\<open>filepath.Clean\<close> leaves it as it is), so the first loop never takes its exit.
\<close>

theorem splitPath_rooted_never_returns:
  "rooted path \<Longrightarrow> splitPath path = None"
  by (rule splitPath_rooted)

theorem splitPath_rooted_never_returns_witness:
  "rooted ''/a/b'' \<and> splitPath ''/a/b'' = None \<and> rooted ''/'' \<and> splitPath ''/'' = None"
proof -
  have r: "rooted ''/a/b''" "rooted ''/''" by (simp_all add: rooted_def)
  from r splitPath_rooted_never_returns [OF r(1)] splitPath_rooted_never_returns [OF r(2)]
  show ?thesis by simp
qed

subsection \<open>The resolver without a base directory\<close>

text \<open>
  Claim C3 says that with an empty \<^verbatim>\<open>GOPATH\<close> the destination is the joined components
  of the identifier. The code leaves the destination empty in that case: it is only
  assigned under the guard \<^verbatim>\<open>len(gopath) > 0\<close>.
\<close>

theorem empty_GOPATH_counterexample:
  "packagePath [] ''example.com/acme/tool'' = Some ([], ''tool'') \<and>
   map_option Join (splitPath ''example.com/acme/tool'') = Some ''example.com/acme/tool''"
  by code_simp

text \<open>
  Claim C3, amended. For every module identifier that does not start with a slash, when
  \<^verbatim>\<open>GOPATH\<close> is empty the resolver returns, its destination path is the empty string,
  and its short name is the last component that \<^verbatim>\<open>splitPath\<close> returns (the empty
  string when there is none).
\<close>

theorem packagePath_empty_GOPATH:
  assumes "\<not> rooted path"
  shows "\<exists>part. splitPath path = Some part \<and>
     packagePath [] path = Some ([], if part = [] then [] else last part)"
proof -
  from splitPath_relative_returns [OF assms] obtain part where "splitPath path = Some part" ..
  then show ?thesis
    by (auto simp: packagePath_def SplitList_def last_conv_nth)
qed

theorem packagePath_empty_GOPATH_witness:
  "\<not> rooted ''example.com/acme/tool'' \<and>
   packagePath [] ''example.com/acme/tool'' = Some ([], ''tool'')"
proof -
  have r: "\<not> rooted ''example.com/acme/tool''" by (simp add: rooted_def)
  from packagePath_empty_GOPATH [OF r] obtain part where
    part: "splitPath ''example.com/acme/tool'' = Some part"
    and pp: "packagePath [] ''example.com/acme/tool''
               = Some ([], if part = [] then [] else last part)"
    by blast
  have "splitPath ''example.com/acme/tool'' = Some [''example.com'', ''acme'', ''tool'']"
    by code_simp
  with part have "part = [''example.com'', ''acme'', ''tool'']" by simp
  with pp r show ?thesis by simp
qed

subsection \<open>The resolver with a base directory\<close>

text \<open>
  Claim C4. For a module identifier made of N components, none empty and none with a
  slash, joined by slashes, and a \<^verbatim>\<open>GOPATH\<close> that is not empty, \<^verbatim>\<open>packagePath\<close>
  returns; the short name is the last component and the destination is
  \<^verbatim>\<open>filepath.Join\<close> of the first entry of \<^verbatim>\<open>GOPATH\<close>, \<^verbatim>\<open>src\<close> and the N
  components in their order. When no component is \<^verbatim>\<open>.\<close> or \<^verbatim>\<open>..\<close>, \<^verbatim>\<open>splitPath\<close>
  returns exactly the N components in their order.
\<close>

theorem packagePath_components:
  assumes ne: "cs \<noteq> []" and el: "\<forall>c \<in> set cs. c \<noteq> [] \<and> CHR ''/'' \<notin> set c"
    and G: "GOPATH \<noteq> []"
  shows "packagePath GOPATH (strings_Join cs ''/'')
      = Some (Join ([hd (SplitList GOPATH), ''src''] @ cs), last cs) \<and>
    ((\<forall>c \<in> set cs. c \<noteq> ''.'' \<and> c \<noteq> ''..'') \<longrightarrow>
       splitPath (strings_Join cs ''/'') = Some cs)"
proof -
  let ?p = "strings_Join cs ''/''"
  from ne have "hd cs \<in> set cs" by simp
  with el have hd: "hd cs \<noteq> []" "CHR ''/'' \<notin> set (hd cs)" by blast+
  have nr: "\<not> rooted ?p" using not_rooted_strings_Join [OF ne hd, of "[]"] by simp
  obtain bs f where cs: "cs = bs @ [f]" using ne by (cases cs rule: rev_cases) auto
  with el have f: "f \<noteq> []" "CHR ''/'' \<notin> set f" by auto
  have "\<exists>part. splitPath ?p = Some part \<and> Join part = Clean ?p \<and> part \<noteq> [] \<and>
          last part = f \<and>
          ((\<forall>c \<in> set cs. c \<noteq> ''.'' \<and> c \<noteq> ''..'') \<longrightarrow> part = cs)"
  proof (cases "bs = []")
    case True
    with cs f Join_splitPath_no_slash [of f] show ?thesis by simp
  next
    case False
    have p: "?p = strings_Join bs ''/'' @ CHR ''/'' # f"
      using False cs by (simp add: strings_Join_snoc)
    from Join_splitPath_dir_file [OF nr [unfolded p] f(2)] f(1)
    obtain part where part: "splitPath ?p = Some part" "Join part = Clean ?p" "part \<noteq> []"
      "last part = f"
      unfolding p by blast
    have "part = cs" if names: "\<forall>c \<in> set cs. c \<noteq> ''.'' \<and> c \<noteq> ''..''"
    proof -
      from el cs have sfb: "\<forall>x \<in> set bs. CHR ''/'' \<notin> set x" by simp
      from el cs names have "\<forall>c \<in> set bs. c \<noteq> [] \<and> c \<noteq> ''.'' \<and> c \<noteq> ''..''" by simp
      from foldl_clean_step_names [OF this, of False "[]"]
      have "foldl (clean_step False) [] (strings_Split (strings_Join bs ''/'') CHR ''/'') = bs"
        by (simp add: strings_Split_Join [OF False sfb])
      with splitPath_dir_file [OF nr [unfolded p] f(2)] part(1) False f(1) cs
      show ?thesis by (simp add: strings_Join_snoc)
    qed
    with part show ?thesis by blast
  qed
  then obtain part where part: "splitPath ?p = Some part" "Join part = Clean ?p" "part \<noteq> []"
    "last part = f" "(\<forall>c \<in> set cs. c \<noteq> ''.'' \<and> c \<noteq> ''..'') \<longrightarrow> part = cs"
    by blast
  from packagePath_of_parts [OF part(1-3) nr G] part(4) cs
  have "packagePath GOPATH ?p = Some (Join [hd (SplitList GOPATH), ''src'', ?p], last cs)"
    by simp
  with Join_src_components [OF ne] part(1,5) show ?thesis by simp
qed

theorem packagePath_components_witness:
  "packagePath ''/home/u/go'' (strings_Join [''example.com'', ''acme'', ''tool''] ''/'')
     = Some (''/home/u/go/src/example.com/acme/tool'', ''tool'') \<and>
   splitPath (strings_Join [''example.com'', ''acme'', ''tool''] ''/'')
     = Some [''example.com'', ''acme'', ''tool'']"
proof -
  have J: "Join ([hd (SplitList ''/home/u/go''), ''src''] @ [''example.com'', ''acme'', ''tool''])
             = ''/home/u/go/src/example.com/acme/tool''"
    by code_simp
  have "[''example.com'', ''acme'', ''tool''] \<noteq> []"
    "\<forall>c \<in> set [''example.com'', ''acme'', ''tool'']. c \<noteq> [] \<and> CHR ''/'' \<notin> set c"
    "''/home/u/go'' \<noteq> []"
    "\<forall>c \<in> set [''example.com'', ''acme'', ''tool'']. c \<noteq> ''.'' \<and> c \<noteq> ''..''"
    by simp_all
  from packagePath_components [OF this(1-3)] this(4) J show ?thesis
    by (simp only: last.simps list.simps if_False if_True simp_thms)
qed

subsection \<open>The template engine\<close>

subsubsection \<open>Occurrences of a substring\<close>

lemma Contains_iff: "Contains s sub \<longleftrightarrow> (\<exists>a b. s = a @ sub @ b)"
proof (induction s)
  case Nil
  then show ?case by auto
next
  case (Cons c s)
  show ?case
  proof
    assume "Contains (c # s) sub"
    then consider "HasPrefix (c # s) sub" | "Contains s sub" by auto
    then show "\<exists>a b. c # s = a @ sub @ b"
    proof cases
      case 1
      then have "c # s = [] @ sub @ drop (length sub) (c # s)"
        by (metis HasPrefix_def append_Nil append_take_drop_id)
      then show ?thesis by blast
    next
      case 2
      with Cons obtain a b where "s = a @ sub @ b" by blast
      then have "c # s = (c # a) @ sub @ b" by simp
      then show ?thesis by blast
    qed
  next
    assume "\<exists>a b. c # s = a @ sub @ b"
    then obtain a b where ab: "c # s = a @ sub @ b" by blast
    show "Contains (c # s) sub"
    proof (cases a)
      case Nil
      with ab have "HasPrefix (c # s) sub" by (simp add: HasPrefix_def)
      then show ?thesis by simp
    next
      case (Cons x a')
      with ab have "s = a' @ sub @ b" by simp
      with Cons.IH show ?thesis by auto
    qed
  qed
qed

lemma sentinel_ends: "sentinel k \<noteq> []" "hd (sentinel k) = CHR ''_''" "last (sentinel k) = CHR ''_''"
  by (simp_all add: sentinel_def)

lemma not_Contains_between:
  assumes v: "\<not> Contains v tok" and pre: "CHR ''_'' \<notin> set pre" and post: "CHR ''_'' \<notin> set post"
    and tok: "tok \<noteq> []" "hd tok = CHR ''_''" "last tok = CHR ''_''"
  shows "\<not> Contains (pre @ v @ post) tok"
proof
  assume "Contains (pre @ v @ post) tok"
  then obtain a b where ab: "pre @ (v @ post) = a @ (tok @ b)" by (auto simp: Contains_iff)
  from ab append_eq_append_conv2 [of pre "v @ post" a "tok @ b"]
  obtain u where "(pre @ u = a \<and> v @ post = u @ tok @ b) \<or> (pre = a @ u \<and> u @ v @ post = tok @ b)"
    by blast
  then have "\<exists>u. v @ post = u @ tok @ b"
  proof
    assume "pre @ u = a \<and> v @ post = u @ tok @ b"
    then show ?thesis by blast
  next
    assume c: "pre = a @ u \<and> u @ v @ post = tok @ b"
    show ?thesis
    proof (cases u)
      case Nil
      with c show ?thesis by (intro exI [of _ "[]"]) simp
    next
      case (Cons x u')
      with c tok have "x = CHR ''_''" by (cases tok) auto
      with c Cons pre show ?thesis by auto
    qed
  qed
  then obtain u where u: "v @ post = (u @ tok) @ b" by auto
  from u append_eq_append_conv2 [of v post "u @ tok" b]
  obtain w where "(v @ w = u @ tok \<and> post = w @ b) \<or> (v = (u @ tok) @ w \<and> w @ post = b)"
    by blast
  then show False
  proof
    assume c: "v @ w = u @ tok \<and> post = w @ b"
    show False
    proof (cases w rule: rev_cases)
      case Nil
      with c have "v = u @ tok @ []" by simp
      with v show False unfolding Contains_iff by blast
    next
      case (snoc w' x)
      have "last ((v @ w') @ [x]) = x" by (rule last_snoc)
      with c snoc have "last (u @ tok) = x" by simp
      with tok have "x = CHR ''_''" by simp
      with c snoc post show False by auto
    qed
  next
    assume "v = (u @ tok) @ w \<and> w @ post = b"
    then have "v = u @ tok @ w" by simp
    with v show False unfolding Contains_iff by blast
  qed
qed

lemma strings_Split_Slot:
  "CHR ''_'' \<notin> set pre \<Longrightarrow> CHR ''_'' \<notin> set key \<Longrightarrow> CHR ''_'' \<notin> set post \<Longrightarrow>
   strings_Split (pre @ sentinel key @ post) CHR ''_'' = [pre, [], key, [], post]"
  using strings_Split_append_sep [of pre "CHR ''_''" "CHR ''_'' # key @ ''__'' @ post"]
    strings_Split_append_sep [of key "CHR ''_''" "CHR ''_'' # post"]
  by (simp add: sentinel_def strings_Split_no_sep_id)

lemma strings_Split_around:
  "CHR ''_'' \<notin> set k \<Longrightarrow>
   strings_Split (a @ sentinel k @ b) CHR ''_''
     = strings_Split a CHR ''_'' @ [[], k, []] @ strings_Split b CHR ''_''"
  using strings_Split_append_sep [of a "CHR ''_''" "CHR ''_'' # k @ ''__'' @ b"]
    strings_Split_append_sep [of k "CHR ''_''" "CHR ''_'' # b"]
  by (simp add: sentinel_def strings_Split_no_sep_id)

lemma not_Contains_other_sentinel:
  assumes "CHR ''_'' \<notin> set pre" "CHR ''_'' \<notin> set key" "CHR ''_'' \<notin> set post"
    and k: "CHR ''_'' \<notin> set k" "k \<noteq> key"
  shows "\<not> Contains (pre @ sentinel key @ post) (sentinel k)"
proof
  assume "Contains (pre @ sentinel key @ post) (sentinel k)"
  then obtain a b where "pre @ sentinel key @ post = a @ sentinel k @ b"
    by (auto simp: Contains_iff)
  then have eq: "[pre, [], key, [], post]
      = strings_Split a CHR ''_'' @ [[], k, []] @ strings_Split b CHR ''_''"
    using strings_Split_Slot [OF assms(1-3)] strings_Split_around [OF k(1), of a b] by simp
  obtain x xs where a: "strings_Split a CHR ''_'' = x # xs"
    by (cases "strings_Split a CHR ''_''") auto
  obtain y ys where b: "strings_Split b CHR ''_'' = y # ys"
    by (cases "strings_Split b CHR ''_''") auto
  from eq a b have "length [pre, [], key, [], post]
      = length ((x # xs) @ [[], k, []] @ (y # ys))" by simp
  then have "xs = []" "ys = []" by simp_all
  with eq a b k show False by simp
qed

subsubsection \<open>strings.ReplaceAll\<close>

lemma ReplaceAll_Nil: "old \<noteq> [] \<Longrightarrow> ReplaceAll [] old new = []"
  by (subst ReplaceAll.simps) simp

lemma ReplaceAll_skip:
  "old \<noteq> [] \<Longrightarrow> hd old \<notin> set pre \<Longrightarrow> ReplaceAll (pre @ s) old new = pre @ ReplaceAll s old new"
proof (induction pre)
  case Nil
  then show ?case by simp
next
  case (Cons c pre)
  then have "\<not> HasPrefix (c # pre @ s) old"
    by (cases old) (auto simp: HasPrefix_def)
  with Cons show ?case by (subst ReplaceAll.simps) simp
qed

lemma ReplaceAll_match:
  "old \<noteq> [] \<Longrightarrow> ReplaceAll (old @ s) old new = new @ ReplaceAll s old new"
  by (subst ReplaceAll.simps) (simp add: HasPrefix_def)

lemma ReplaceAll_absent:
  "old \<noteq> [] \<Longrightarrow> \<not> Contains s old \<Longrightarrow> ReplaceAll s old new = s"
proof (induction s)
  case Nil
  then show ?case by (simp add: ReplaceAll_Nil)
next
  case (Cons c s)
  then show ?case by (subst ReplaceAll.simps) simp
qed

lemma ReplaceAll_Slot_same:
  assumes "CHR ''_'' \<notin> set pre" "CHR ''_'' \<notin> set post"
  shows "ReplaceAll (pre @ sentinel key @ post) (sentinel key) v = pre @ v @ post"
proof -
  have "ReplaceAll (post @ []) (sentinel key) v = post @ ReplaceAll [] (sentinel key) v"
    using assms by (intro ReplaceAll_skip) (simp_all add: sentinel_ends)
  then have "ReplaceAll post (sentinel key) v = post"
    by (simp add: ReplaceAll_Nil sentinel_ends)
  with assms show ?thesis
    by (simp add: ReplaceAll_skip ReplaceAll_match sentinel_ends)
qed

lemma ReplaceAll_Slot_other:
  assumes "CHR ''_'' \<notin> set pre" "CHR ''_'' \<notin> set key" "CHR ''_'' \<notin> set post"
    and "CHR ''_'' \<notin> set k" "k \<noteq> key"
  shows "ReplaceAll (pre @ sentinel key @ post) (sentinel k) v = pre @ sentinel key @ post"
  by (rule ReplaceAll_absent [OF sentinel_ends(1) not_Contains_other_sentinel [OF assms]])

subsubsection \<open>The nested replacements\<close>

lemma replace_tokens_absent:
  "\<forall>key \<in> set (map fst ctx). \<not> Contains s (sentinel key) \<Longrightarrow> replace_tokens ctx s = s"
  by (induction ctx arbitrary: s) (auto simp: ReplaceAll_absent sentinel_ends)

lemma not_Contains_plain:
  "CHR ''_'' \<notin> set s \<Longrightarrow> \<not> Contains s (sentinel k)"
  using not_Contains_between [of "[]" "sentinel k" s "[]"]
  by (simp add: sentinel_ends)

lemma replace_tokens_line:
  assumes ok: "line_ok l" and keys: "\<forall>key \<in> set (map fst ctx). CHR ''_'' \<notin> set key"
    and vals: "values_clean ctx"
  shows "replace_tokens ctx (line_text l) = fill ctx l"
proof (cases l)
  case (Plain s)
  with ok show ?thesis
    by (simp add: replace_tokens_absent not_Contains_plain)
next
  case (Slot pre key post)
  with ok have u: "CHR ''_'' \<notin> set pre" "CHR ''_'' \<notin> set key" "CHR ''_'' \<notin> set post"
    by simp_all
  have "\<forall>key' \<in> set (map fst cx). CHR ''_'' \<notin> set key' \<Longrightarrow>
        \<forall>v \<in> set (map snd cx). \<forall>key' \<in> set (map fst ctx0). \<not> Contains v (sentinel key') \<Longrightarrow>
        set (map fst cx) \<subseteq> set (map fst ctx0) \<Longrightarrow>
        replace_tokens cx (pre @ sentinel key @ post)
          = pre @ (case map_of cx key of Some v \<Rightarrow> v | None \<Rightarrow> sentinel key) @ post"
    for ctx0 cx
  proof (induction cx)
    case Nil
    then show ?case by simp
  next
    case (Cons kv cx)
    obtain k v where kv: "kv = (k, v)" by (cases kv)
    show ?case
    proof (cases "k = key")
      case True
      have "\<not> Contains (pre @ v @ post) (sentinel key')"
        if "key' \<in> set (map fst cx)" for key'
      proof -
        from that Cons.prems(3) have "key' \<in> set (map fst ctx0)" by auto
        with Cons.prems(2) kv have "\<not> Contains v (sentinel key')" by auto
        from not_Contains_between [OF this u(1,3) sentinel_ends] show ?thesis .
      qed
      then have "\<forall>key' \<in> set (map fst cx). \<not> Contains (pre @ v @ post) (sentinel key')"
        by blast
      with True kv u show ?thesis
        by (simp add: ReplaceAll_Slot_same replace_tokens_absent)
    next
      case False
      from Cons.prems kv have "CHR ''_'' \<notin> set k" by simp
      from ReplaceAll_Slot_other [OF u this False] Cons False kv show ?thesis by simp
    qed
  qed
  from this [of ctx ctx] keys vals Slot show ?thesis
    by (simp add: values_clean_def)
qed

lemma not_Contains_fill:
  assumes ok: "line_ok l" and keys: "\<forall>key \<in> set (map fst ctx). CHR ''_'' \<notin> set key"
    and vals: "values_clean ctx" and k: "k \<in> set (map fst ctx)"
  shows "\<not> Contains (fill ctx l) (sentinel k)"
proof (cases l)
  case (Plain s)
  with ok show ?thesis by (simp add: not_Contains_plain)
next
  case (Slot pre key post)
  with ok have u: "CHR ''_'' \<notin> set pre" "CHR ''_'' \<notin> set key" "CHR ''_'' \<notin> set post"
    by simp_all
  show ?thesis
  proof (cases "map_of ctx key")
    case None
    then have "key \<notin> set (map fst ctx)" by (simp add: map_of_eq_None_iff)
    with k have ne: "k \<noteq> key" by auto
    from keys k have "CHR ''_'' \<notin> set k" by blast
    from not_Contains_other_sentinel [OF u this ne] Slot None show ?thesis by simp
  next
    case (Some v)
    then have "v \<in> set (map snd ctx)" by (auto dest: map_of_SomeD intro: rev_image_eqI)
    with vals k have "\<not> Contains v (sentinel k)" unfolding values_clean_def by blast
    from not_Contains_between [OF this u(1,3) sentinel_ends] Slot Some show ?thesis by simp
  qed
qed

lemma Template_insert_replace_tokens:
  "Template_insert tmpl name date version
     = map (replace_tokens (context_base name date version)) tmpl"
  by (simp add: Template_insert_def context_base_def sentinel_def)

lemma Template_insert_ext_replace_tokens:
  "Template_insert_ext tmpl path name date version user
     = map (replace_tokens (context_ext path name date version user)) tmpl"
  by (simp add: Template_insert_ext_def context_ext_def sentinel_def)

subsubsection \<open>Reading a line by its fields\<close>

lemma strings_Join_Cons_Cons:
  "strings_Join ((x # f) # fs) sep = x # strings_Join (f # fs) sep"
  by (cases fs) simp_all

lemma strings_Join_Split: "strings_Join (strings_Split s c) [c] = s"
proof (induction s)
  case Nil
  then show ?case by simp
next
  case (Cons x s)
  obtain f fs where sp: "strings_Split s c = f # fs"
    by (cases "strings_Split s c") auto
  with Cons show ?case by (simp add: strings_Join_Cons_Cons)
qed

lemma parse_line_sound:
  assumes "parse_line s = Some l"
  shows "line_text l = s \<and> line_ok l"
proof -
  have j: "strings_Join (strings_Split s CHR ''_'') ''_'' = s" by (rule strings_Join_Split)
  have n: "\<And>x. x \<in> set (strings_Split s CHR ''_'') \<Longrightarrow> CHR ''_'' \<notin> set x"
    by (rule strings_Split_no_sep)
  from assms consider t where "strings_Split s CHR ''_'' = [t]" "l = Plain t"
    | pre key post where "strings_Split s CHR ''_'' = [pre, [], key, [], post]"
        "l = Slot pre key post"
    by (auto simp: parse_line.simps split: list.splits)
  then show ?thesis
  proof cases
    case 1
    with j n [of t] show ?thesis by simp
  next
    case 2
    with j n [of pre] n [of key] n [of post] show ?thesis by (simp add: sentinel_def)
  qed
qed

lemma parsed_template:
  assumes "list_all (\<lambda>s. parse_line s \<noteq> None) tmpl"
  shows "map line_text (map (\<lambda>s. the (parse_line s)) tmpl) = tmpl \<and>
     (\<forall>l \<in> set (map (\<lambda>s. the (parse_line s)) tmpl). line_ok l)"
  using assms by (induction tmpl) (auto dest: parse_line_sound)

lemma compiled_in_templates_parse:
  "list_all (\<lambda>s. parse_line s \<noteq> None) (template @ template_ext @ license_MIT @ readme)"
  by code_simp

lemma context_keys:
  "\<forall>key \<in> set (map fst (context_base name date version)). CHR ''_'' \<notin> set key"
  "\<forall>key \<in> set (map fst (context_ext path name date version user)). CHR ''_'' \<notin> set key"
  by (simp_all add: context_base_def context_ext_def)

text \<open>
  Claim C5 says that for every template and every context whose values hold no sentinel,
  the output holds no sentinel of a supplied token and leaves the sentinels of other
  tokens untouched. The replacements are literal and come one after the other, so a value
  can complete a sentinel with the text around it, and a sentinel can overlap another one:
  with the date \<^verbatim>\<open>ME__\<close> the line \<^verbatim>\<open>__NA__DATE__\<close> becomes \<^verbatim>\<open>__NAME__\<close>,
  and in the line \<^verbatim>\<open>__USER__NAME__\<close> the sentinel of the token \<^verbatim>\<open>USER\<close>, which
  the base variant does not supply, loses its end.
\<close>

theorem insert_leaves_sentinel_counterexample:
  "values_clean (context_base ''X'' ''ME__'' ''V'') \<and>
   Template_insert [''__NA__DATE__''] ''X'' ''ME__'' ''V'' = [''__NAME__''] \<and>
   Template_insert [''__USER__NAME__''] ''X'' ''ME__'' ''V'' = [''__USERX'']"
  by code_simp

text \<open>
  Claim C5, amended. Take a template whose lines are each free of underscores or made of
  one sentinel between two texts free of underscores, with a token free of underscores
  (every line of the compiled-in templates is of this kind), and a context whose values
  hold no sentinel of a supplied token. Then \<^verbatim>\<open>insert\<close> puts the value in the place
  of the sentinel of every supplied token, leaves a line whose token is not supplied as it
  is, and no line of the output holds a sentinel of a supplied token. This holds for the
  three tokens of the base variant and for the five of the extended variant.
\<close>

theorem insert_fills_slot_lines:
  assumes "\<forall>l \<in> set ls. line_ok l"
  shows
   "(values_clean (context_base name date version) \<longrightarrow>
       Template_insert (map line_text ls) name date version
         = map (fill (context_base name date version)) ls \<and>
       (\<forall>s \<in> set (Template_insert (map line_text ls) name date version).
          \<forall>key \<in> {''NAME'', ''DATE'', ''VERSION''}. \<not> Contains s (sentinel key))) \<and>
    (values_clean (context_ext path name date version user) \<longrightarrow>
       Template_insert_ext (map line_text ls) path name date version user
         = map (fill (context_ext path name date version user)) ls \<and>
       (\<forall>s \<in> set (Template_insert_ext (map line_text ls) path name date version user).
          \<forall>key \<in> {''IMPORT'', ''NAME'', ''DATE'', ''VERSION'', ''USER''}.
            \<not> Contains s (sentinel key)))"
proof (intro conjI impI)
  assume v: "values_clean (context_base name date version)"
  show eq: "Template_insert (map line_text ls) name date version
      = map (fill (context_base name date version)) ls"
    using assms by (simp add: Template_insert_replace_tokens
        replace_tokens_line [OF _ context_keys(1) v])
  show "\<forall>s \<in> set (Template_insert (map line_text ls) name date version).
          \<forall>key \<in> {''NAME'', ''DATE'', ''VERSION''}. \<not> Contains s (sentinel key)"
    unfolding eq using assms not_Contains_fill [OF _ context_keys(1) v]
    by (auto simp: context_base_def)
next
  assume v: "values_clean (context_ext path name date version user)"
  show eq: "Template_insert_ext (map line_text ls) path name date version user
      = map (fill (context_ext path name date version user)) ls"
    using assms by (simp add: Template_insert_ext_replace_tokens
        replace_tokens_line [OF _ context_keys(2) v])
  show "\<forall>s \<in> set (Template_insert_ext (map line_text ls) path name date version user).
          \<forall>key \<in> {''IMPORT'', ''NAME'', ''DATE'', ''VERSION'', ''USER''}.
            \<not> Contains s (sentinel key)"
    unfolding eq using assms not_Contains_fill [OF _ context_keys(2) v]
    by (auto simp: context_ext_def)
qed

theorem insert_fills_slot_lines_witness:
  \<open>values_clean (context_base ''tool'' ''2020 Oct 10'' ''0.1.0'') \<and>
   list_all line_ok (map (\<lambda>s. the (parse_line s)) template) \<and>
   map line_text (map (\<lambda>s. the (parse_line s)) template) = template \<and>
   Template_insert template ''tool'' ''2020 Oct 10'' ''0.1.0'' ! 11
     = tab @ tab @ ''Package: "tool",'' \<and>
   Template_insert template ''tool'' ''2020 Oct 10'' ''0.1.0'' ! 12
     = tab @ tab @ ''Version: "0.1.0",'' \<and>
   Template_insert template ''tool'' ''2020 Oct 10'' ''0.1.0'' ! 13
     = tab @ tab @ ''Date:    "2020 Oct 10",'' \<and>
   list_all (\<lambda>s. \<not> Contains s ''__NAME__'' \<and> \<not> Contains s ''__DATE__'' \<and>
                 \<not> Contains s ''__VERSION__'')
     (Template_insert template ''tool'' ''2020 Oct 10'' ''0.1.0'')\<close>
proof -
  let ?ls = "map (\<lambda>s. the (parse_line s)) template"
  let ?ctx = "context_base ''tool'' ''2020 Oct 10'' ''0.1.0''"
  have v: "values_clean ?ctx" by code_simp
  from compiled_in_templates_parse have "list_all (\<lambda>s. parse_line s \<noteq> None) template"
    by simp
  from parsed_template [OF this] have t: "map line_text ?ls = template"
    and ok: "\<forall>l \<in> set ?ls. line_ok l" by blast+
  from insert_fills_slot_lines [OF ok, THEN conjunct1, rule_format, OF v]
  have eq: "Template_insert template ''tool'' ''2020 Oct 10'' ''0.1.0'' = map (fill ?ctx) ?ls"
    and none: "\<forall>s \<in> set (Template_insert template ''tool'' ''2020 Oct 10'' ''0.1.0'').
          \<forall>key \<in> {''NAME'', ''DATE'', ''VERSION''}. \<not> Contains s (sentinel key)"
    unfolding t by blast+
  have l11: \<open>map (fill ?ctx) ?ls ! 11 = tab @ tab @ ''Package: "tool",''\<close> by code_simp
  have l12: \<open>map (fill ?ctx) ?ls ! 12 = tab @ tab @ ''Version: "0.1.0",''\<close> by code_simp
  have l13: \<open>map (fill ?ctx) ?ls ! 13 = tab @ tab @ ''Date:    "2020 Oct 10",''\<close> by code_simp
  from none have "list_all (\<lambda>s. \<not> Contains s ''__NAME__'' \<and> \<not> Contains s ''__DATE__'' \<and>
                 \<not> Contains s ''__VERSION__'')
     (Template_insert template ''tool'' ''2020 Oct 10'' ''0.1.0'')"
    by (simp add: list_all_iff sentinel_def)
  with v t ok l11 l12 l13 show ?thesis
    unfolding eq [symmetric] by (simp add: list_all_iff)
qed

end
